theory Spec2Isabelle
  imports Complex_Main "HOL-Library.Sublist"
begin

section \<open>Characters and numbers of the host language\<close>

text \<open>
  Strings are lists of 8-bit code units. Numbers that the program uses as indices and
  counters are integers; the program's numbers are IEEE doubles, on which integer
  arithmetic is exact below \<open>2 ^ 53\<close>, so statements about indices that come from
  outside carry that bound.
\<close>

definition isUpper :: "char \<Rightarrow> bool" where
  "isUpper c = (65 \<le> (of_char c :: int) \<and> (of_char c :: int) \<le> 90)"

definition isLower :: "char \<Rightarrow> bool" where
  "isLower c = (97 \<le> (of_char c :: int) \<and> (of_char c :: int) \<le> 122)"

definition isDigit :: "char \<Rightarrow> bool" where
  "isDigit c = (48 \<le> (of_char c :: int) \<and> (of_char c :: int) \<le> 57)"

text \<open>The decimal digits of a non-negative integer, most significant first.\<close>

function digitsOf :: "int \<Rightarrow> string" where
  "digitsOf n =
     (if n < 10 then [char_of (48 + n)]
      else digitsOf (n div 10) @ [char_of (48 + n mod 10)])"
  by pat_completeness auto
termination
  by (relation "measure nat") auto

declare digitsOf.simps [simp del]

text \<open>\<open>String(n)\<close> and \<open>`${n}`\<close> for an integer \<open>n\<close> of magnitude below \<open>10 ^ 21\<close>.\<close>

definition numberToString :: "int \<Rightarrow> string" where
  "numberToString i = (if i < 0 then CHR ''-'' # digitsOf (- i) else digitsOf i)"

text \<open>\<open>parseInt\<close> on a string of decimal digits.\<close>

definition parseDigits :: "string \<Rightarrow> int" where
  "parseDigits ds = foldl (\<lambda>acc c. acc * 10 + (of_char c - 48)) 0 ds"

section \<open>cellHelpers.js\<close>

text \<open>The \<open>while (temp > 0)\<close> loop of \<open>getColumnId\<close>; \<open>ident\<close> is the string built so far.\<close>

function columnLoop :: "int \<Rightarrow> string \<Rightarrow> string" where
  "columnLoop temp ident =
     (if temp > 0
      then columnLoop ((temp - 1) div 26) (char_of ((65 :: int) + (temp - 1) mod 26) # ident)
      else ident)"
  by pat_completeness auto
termination
  by (relation "measure (\<lambda>(temp, ident). nat temp)") auto

declare columnLoop.simps [simp del]

definition getColumnId :: "int \<Rightarrow> string" where
  "getColumnId index = columnLoop (index + 1) []"

text \<open>The \<open>for\<close> loop of \<open>getColumnIndex\<close>: \<open>index = index * 26 + (charCode - 64)\<close>.\<close>

definition colValue :: "string \<Rightarrow> int" where
  "colValue ident = foldl (\<lambda>index c. index * 26 + (of_char c - 64)) 0 ident"

definition getColumnIndex :: "string \<Rightarrow> int" where
  "getColumnIndex ident = colValue ident - 1"

definition getCellId :: "int \<Rightarrow> int \<Rightarrow> string" where
  "getCellId colIndex rowIndex = getColumnId colIndex @ numberToString (rowIndex + 1)"

text \<open>
  \<open>getCellIndices\<close> indexes the result of two regular-expression matches,
  \<open>/^([A-Z]+)/\<close> and \<open>/(\d+)$/\<close>; where a match fails the result is \<open>null\<close> and the
  indexing throws, which is \<open>None\<close> here.
\<close>

definition getCellIndices :: "string \<Rightarrow> (int \<times> int) option" where
  "getCellIndices cellId =
     (let colMatch = takeWhile isUpper cellId in
      if colMatch = [] then None
      else let rowMatch = rev (takeWhile isDigit (rev cellId)) in
        if rowMatch = [] then None
        else Some (getColumnIndex colMatch, parseDigits rowMatch - 1))"


section \<open>Values of the host language\<close>

text \<open>
  A number is a double. Finite doubles are modelled by exact rationals, with the three
  special values beside them. Rounding is not modelled: a quotient such as 4/3 stands
  for the double nearest to it, and a decimal literal beyond the range of a double
  (\<open>1e400\<close>, \<open>1e-400\<close>) keeps its exact value where the code has \<open>Infinity\<close> or 0. A
  value is one of the primitive values a cell or an evaluation can hold.
\<close>

datatype jsnum = Fin rat | PosInf | NegInf | NaN

datatype jsval = Undefined | Null | Bool bool | Num jsnum | Str string

definition dquote :: char where
  "dquote = CHR 0x22"

definition backslash :: char where
  "backslash = CHR 0x5C"

text \<open>Addition of doubles, and division of a double by a positive count.\<close>

fun jadd :: "jsnum \<Rightarrow> jsnum \<Rightarrow> jsnum" where
  "jadd (Fin a) (Fin b) = Fin (a + b)"
| "jadd NaN _ = NaN"
| "jadd _ NaN = NaN"
| "jadd PosInf NegInf = NaN"
| "jadd NegInf PosInf = NaN"
| "jadd PosInf _ = PosInf"
| "jadd _ PosInf = PosInf"
| "jadd NegInf _ = NegInf"
| "jadd _ NegInf = NegInf"

fun jdivCount :: "jsnum \<Rightarrow> nat \<Rightarrow> jsnum" where
  "jdivCount (Fin a) n = Fin (a / of_nat n)"
| "jdivCount x n = x"

text \<open>White space as \<open>trim\<close> sees it, among 8-bit code units.\<close>

definition isWs :: "char \<Rightarrow> bool" where
  "isWs c = ((of_char c :: int) \<in> {9, 10, 11, 12, 13, 32, 160})"

definition trimStart :: "string \<Rightarrow> string" where
  "trimStart s = dropWhile isWs s"

definition trim :: "string \<Rightarrow> string" where
  "trim s = rev (dropWhile isWs (rev (dropWhile isWs s)))"

definition isAlnum :: "char \<Rightarrow> bool" where
  "isAlnum c = (isUpper c \<or> isLower c \<or> isDigit c)"

definition toUpperChar :: "char \<Rightarrow> char" where
  "toUpperChar c = (if isLower c then char_of ((of_char c :: int) - 32) else c)"

definition toLowerChar :: "char \<Rightarrow> char" where
  "toLowerChar c = (if isUpper c then char_of ((of_char c :: int) + 32) else c)"

definition startsWith :: "string \<Rightarrow> string \<Rightarrow> bool" where
  "startsWith s p = (take (length p) s = p)"

definition endsWith :: "string \<Rightarrow> string \<Rightarrow> bool" where
  "endsWith s p = (length p \<le> length s \<and> drop (length s - length p) s = p)"

text \<open>
  The longest prefix of a string that is a decimal literal (\<open>StrDecimalLiteral\<close>): an
  optional sign, then \<open>Infinity\<close> or digits with an optional fraction and an optional
  exponent. The result is the number and the rest of the string.
\<close>

definition splitSign :: "string \<Rightarrow> bool \<times> string" where
  "splitSign s =
     (case s of
        [] \<Rightarrow> (False, s)
      | c # r \<Rightarrow> if c = CHR ''+'' then (False, r) else if c = CHR ''-'' then (True, r) else (False, s))"

definition scaleTen :: "rat \<Rightarrow> int \<Rightarrow> rat" where
  "scaleTen m e = (if 0 \<le> e then m * 10 ^ nat e else m / 10 ^ nat (- e))"

definition scanExponent :: "string \<Rightarrow> int \<times> string" where
  "scanExponent s =
     (case s of
        [] \<Rightarrow> (0, s)
      | c # t \<Rightarrow>
          if c = CHR ''e'' \<or> c = CHR ''E'' then
            (let (eneg, t1) = splitSign t; ed = takeWhile isDigit t1
             in if ed = [] then (0, s)
                else ((if eneg then - parseDigits ed else parseDigits ed), dropWhile isDigit t1))
          else (0, s))"

definition scanDecimal :: "string \<Rightarrow> (jsnum \<times> string) option" where
  "scanDecimal s =
     (let (neg, s1) = splitSign s in
      if startsWith s1 ''Infinity'' then Some (if neg then NegInf else PosInf, drop 8 s1)
      else
        let ip = takeWhile isDigit s1; r1 = dropWhile isDigit s1;
            (fp, r2) = (case r1 of
                          [] \<Rightarrow> ([], r1)
                        | c # t \<Rightarrow> if c = CHR ''.'' then (takeWhile isDigit t, dropWhile isDigit t)
                                   else ([], r1))
        in if ip = [] \<and> fp = [] then None
           else
             let (ex, r3) = scanExponent r2;
                 v = scaleTen (of_int (parseDigits (ip @ fp)) / 10 ^ length fp) ex
             in Some (Fin (if neg then - v else v), r3))"

text \<open>\<open>parseFloat\<close> of a string, and of a value (which is converted to a string first).\<close>

definition parseFloat :: "string \<Rightarrow> jsnum" where
  "parseFloat s = (case scanDecimal (trimStart s) of None \<Rightarrow> NaN | Some (v, _) \<Rightarrow> v)"

fun parseFloatVal :: "jsval \<Rightarrow> jsnum" where
  "parseFloatVal (Str s) = parseFloat s"
| "parseFloatVal (Num n) = n"
| "parseFloatVal _ = NaN"

text \<open>
  \<open>isNaN(value)\<close> converts with \<open>Number\<close>: the whole trimmed string has to be a numeric
  literal (decimal, or an unsigned hexadecimal, octal or binary integer); the empty
  string converts to 0.
\<close>

definition isHexDigit :: "char \<Rightarrow> bool" where
  "isHexDigit c = (isDigit c \<or> (of_char c :: int) \<in> {65..70} \<or> (of_char c :: int) \<in> {97..102})"

definition isRadixLiteral :: "string \<Rightarrow> bool" where
  "isRadixLiteral t =
     (case t of
        z # x # ds \<Rightarrow>
          z = CHR ''0'' \<and> ds \<noteq> [] \<and>
          ((x \<in> {CHR ''x'', CHR ''X''} \<and> list_all isHexDigit ds) \<or>
           (x \<in> {CHR ''o'', CHR ''O''} \<and> list_all (\<lambda>c. (of_char c :: int) \<in> {48..55}) ds) \<or>
           (x \<in> {CHR ''b'', CHR ''B''} \<and> list_all (\<lambda>c. c = CHR ''0'' \<or> c = CHR ''1'') ds))
      | _ \<Rightarrow> False)"

definition stringIsNaN :: "string \<Rightarrow> bool" where
  "stringIsNaN s =
     (let t = trim s in
      if t = [] then False
      else if isRadixLiteral t then False
      else (case scanDecimal t of Some (v, []) \<Rightarrow> False | _ \<Rightarrow> True))"

fun isNaN :: "jsval \<Rightarrow> bool" where
  "isNaN Undefined = True"
| "isNaN Null = False"
| "isNaN (Bool b) = False"
| "isNaN (Num n) = (n = NaN)"
| "isNaN (Str s) = stringIsNaN s"

text \<open>Truthiness, as \<open>if (value)\<close> and \<open>Boolean(value)\<close> decide it.\<close>

fun truthy :: "jsval \<Rightarrow> bool" where
  "truthy Undefined = False"
| "truthy Null = False"
| "truthy (Bool b) = b"
| "truthy (Num n) = (n \<noteq> NaN \<and> n \<noteq> Fin 0)"
| "truthy (Str s) = (s \<noteq> [])"

text \<open>
  Sets and maps of the host language keep insertion order. A set is a list without
  duplicates, a map a list of pairs with distinct keys.
\<close>

definition setAdd :: "'a \<Rightarrow> 'a list \<Rightarrow> 'a list" where
  "setAdd x xs = (if x \<in> set xs then xs else xs @ [x])"

definition setDelete :: "'a \<Rightarrow> 'a list \<Rightarrow> 'a list" where
  "setDelete x xs = filter (\<lambda>y. y \<noteq> x) xs"

definition mapSet :: "'k \<Rightarrow> 'v \<Rightarrow> ('k \<times> 'v) list \<Rightarrow> ('k \<times> 'v) list" where
  "mapSet k v m =
     (if k \<in> fst ` set m then map (\<lambda>(k', v'). if k' = k then (k', v) else (k', v')) m
      else m @ [(k, v)])"

definition mapDelete :: "'k \<Rightarrow> ('k \<times> 'v) list \<Rightarrow> ('k \<times> 'v) list" where
  "mapDelete k m = filter (\<lambda>(k', v'). k' \<noteq> k) m"

text \<open>\<open>Array.prototype.join\<close> on strings, and \<open>String.prototype.split\<close> on one character.\<close>

fun joinWith :: "string \<Rightarrow> string list \<Rightarrow> string" where
  "joinWith sep [] = []"
| "joinWith sep [x] = x"
| "joinWith sep (x # y # ys) = x @ sep @ joinWith sep (y # ys)"

fun splitOn :: "char \<Rightarrow> string \<Rightarrow> string list" where
  "splitOn d [] = [[]]"
| "splitOn d (c # cs) =
     (if c = d then [] # splitOn d cs
      else (case splitOn d cs of [] \<Rightarrow> [[c]] | p # ps \<Rightarrow> (c # p) # ps))"


section \<open>FormulaParser: cell references and ranges\<close>

text \<open>\<open>/^[A-Z]+[0-9]+$/\<close> on an already trimmed string.\<close>

definition isCellRefText :: "string \<Rightarrow> bool" where
  "isCellRefText t =
     (let letters = takeWhile isUpper t; rest = dropWhile isUpper t
      in letters \<noteq> [] \<and> rest \<noteq> [] \<and> list_all isDigit rest)"

definition isValidCellReference :: "string \<Rightarrow> bool" where
  "isValidCellReference cellRef = (cellRef \<noteq> [] \<and> isCellRefText (trim cellRef))"

text \<open>
  \<open>columnLetterToIndex\<close> is 1-based. It throws on a character outside A-Z and catches
  its own exception, returning 1.
\<close>

definition columnLetterToIndex :: "string \<Rightarrow> int" where
  "columnLetterToIndex letter =
     (if letter = [] then 1
      else if list_all isUpper letter then colValue letter
      else 1)"

definition indexToColumnLetter :: "int \<Rightarrow> string" where
  "indexToColumnLetter index = (if index < 1 then ''A'' else columnLoop index [])"

definition cellName :: "int \<Rightarrow> int \<Rightarrow> string" where
  "cellName col row = indexToColumnLetter col @ numberToString row"

text \<open>The two nested \<open>for\<close> loops of \<open>generateCellRange\<close>.\<close>

function colLoopFull :: "int \<Rightarrow> int \<Rightarrow> int \<Rightarrow> string list \<Rightarrow> string list" where
  "colLoopFull col maxCol row cells =
     (if col \<le> maxCol then colLoopFull (col + 1) maxCol row (cells @ [cellName col row])
      else cells)"
  by pat_completeness auto
termination
  by (relation "measure (\<lambda>(col, maxCol, row, cells). nat (maxCol + 1 - col))") auto

function rowLoopFull :: "int \<Rightarrow> int \<Rightarrow> int \<Rightarrow> int \<Rightarrow> string list \<Rightarrow> string list" where
  "rowLoopFull row maxRow minCol maxCol cells =
     (if row \<le> maxRow
      then rowLoopFull (row + 1) maxRow minCol maxCol (colLoopFull minCol maxCol row cells)
      else cells)"
  by pat_completeness auto
termination
  by (relation "measure (\<lambda>(row, maxRow, minCol, maxCol, cells). nat (maxRow + 1 - row))") auto

declare colLoopFull.simps [simp del]
declare rowLoopFull.simps [simp del]

definition generateCellRange :: "int \<Rightarrow> int \<Rightarrow> int \<Rightarrow> int \<Rightarrow> string list" where
  "generateCellRange startCol startRow endCol endRow =
     rowLoopFull (min startRow endRow) (max startRow endRow)
       (min startCol endCol) (max startCol endCol) []"

text \<open>
  The loops of \<open>generateLimitedRange\<close>, which also test \<open>count < maxCells\<close>; the state is
  the array \<open>cells\<close> and the counter \<open>count\<close>.
\<close>

function colLoopLimited ::
  "int \<Rightarrow> int \<Rightarrow> int \<Rightarrow> int \<Rightarrow> string list \<times> int \<Rightarrow> string list \<times> int" where
  "colLoopLimited col maxCol row maxCells st =
     (if col \<le> maxCol \<and> snd st < maxCells
      then colLoopLimited (col + 1) maxCol row maxCells (fst st @ [cellName col row], snd st + 1)
      else st)"
  by pat_completeness auto
termination
  by (relation "measure (\<lambda>(col, maxCol, row, maxCells, st). nat (maxCol + 1 - col))") auto

function rowLoopLimited ::
  "int \<Rightarrow> int \<Rightarrow> int \<Rightarrow> int \<Rightarrow> int \<Rightarrow> string list \<times> int \<Rightarrow> string list \<times> int" where
  "rowLoopLimited row maxRow minCol maxCol maxCells st =
     (if row \<le> maxRow \<and> snd st < maxCells
      then rowLoopLimited (row + 1) maxRow minCol maxCol maxCells
             (colLoopLimited minCol maxCol row maxCells st)
      else st)"
  by pat_completeness auto
termination
  by (relation "measure (\<lambda>(row, maxRow, minCol, maxCol, maxCells, st). nat (maxRow + 1 - row))") auto

declare colLoopLimited.simps [simp del]
declare rowLoopLimited.simps [simp del]

definition generateLimitedRange :: "int \<Rightarrow> int \<Rightarrow> int \<Rightarrow> int \<Rightarrow> int \<Rightarrow> string list" where
  "generateLimitedRange startCol startRow endCol endRow maxCells =
     fst (rowLoopLimited (min startRow endRow) (max startRow endRow)
            (min startCol endCol) (max startCol endCol) maxCells ([], 0))"

text \<open>
  \<open>parseCellRange\<close>. Both parts have passed \<open>isValidCellReference\<close> when
  \<open>/([A-Z]+)([0-9]+)/\<close> is matched against them, so the match is the whole part: its
  letters and its digits.
\<close>

definition parseCellRange :: "string \<Rightarrow> string list" where
  "parseCellRange rng =
     (if rng = [] then []
      else
        let parts = splitOn (CHR '':'') rng in
        if length parts \<noteq> 2 then (if isValidCellReference rng then [rng] else [])
        else
          let startCell = trim (parts ! 0); endCell = trim (parts ! 1) in
          if \<not> isValidCellReference startCell \<or> \<not> isValidCellReference endCell then []
          else
            let startCol = columnLetterToIndex (takeWhile isUpper startCell);
                startRow = parseDigits (dropWhile isUpper startCell);
                endCol = columnLetterToIndex (takeWhile isUpper endCell);
                endRow = parseDigits (dropWhile isUpper endCell)
            in if startRow \<le> 0 \<or> endRow \<le> 0 then []
               else
                 let maxCells = 1000;
                     rangeSize = (\<bar>endRow - startRow\<bar> + 1) * (\<bar>endCol - startCol\<bar> + 1)
                 in if rangeSize > maxCells
                    then generateLimitedRange startCol startRow endCol endRow maxCells
                    else generateCellRange startCol startRow endCol endRow)"

text \<open>
  The expansion in the words of the specification: the cells of the rectangle in
  row-major order, increasing row in the outer loop and increasing column in the inner.
\<close>

definition rowMajorCells :: "int \<Rightarrow> int \<Rightarrow> int \<Rightarrow> int \<Rightarrow> string list" where
  "rowMajorCells minCol maxCol minRow maxRow =
     concat (map (\<lambda>row. map (\<lambda>col. cellName col row) [minCol..maxCol]) [minRow..maxRow])"


section \<open>FormulaParser: state and collaborators\<close>

text \<open>
  An entry of the module-level \<open>evaluationCache\<close>, and the parser object together with
  that cache. \<open>cellsUsed\<close>, \<open>circularReferences\<close> and \<open>processingStack\<close> are sets.
\<close>

record cacheEntry =
  entryValue :: jsval
  entryDependencies :: "string list"

record parser =
  evaluationCache :: "(string \<times> cacheEntry) list"
  cellsUsed :: "string list"
  cacheHits :: nat
  cacheMisses :: nat
  circularReferences :: "string list"
  processingStack :: "string list"

text \<open>
  What the code receives from outside. \<open>getCellValue\<close> is the constructor's argument;
  the store's accessor returns \<open>sheet?.cells[cellId]?.value || ''\<close> and does not throw.
  \<open>mathEvaluate\<close> is \<open>math.evaluate\<close> of the mathjs library, \<open>None\<close> where it throws.
  \<open>numberFormat\<close> is the host's decimal rendering of a number that is not an integer.
  \<open>otherFunction name\<close> stands for the bodies of the catalogue functions that no
  statement below is about (\<open>evaluateSum\<close>, \<open>evaluateMin\<close>, ...): from the expression they
  compute a value, and the cell ids that they add to \<open>cellsUsed\<close> on the way; they touch
  nothing else of the parser. \<open>callStackLimit\<close> belongs to the JavaScript engine: the
  number of nested calls of \<open>recalculateDependentCells\<close> that fit on the call stack
  below the first one; the next one throws a \<open>RangeError\<close>.
\<close>

record host =
  getCellValue :: "string \<Rightarrow> jsval"
  mathEvaluate :: "string \<Rightarrow> jsval option"
  numberFormat :: "rat \<Rightarrow> string"
  otherFunction :: "string \<Rightarrow> string \<Rightarrow> jsval \<times> string list"
  callStackLimit :: nat

definition newParser :: parser where
  "newParser = \<lparr>evaluationCache = [], cellsUsed = [], cacheHits = 0, cacheMisses = 0,
                 circularReferences = [], processingStack = []\<rparr>"

definition errorMarker :: jsval where
  "errorMarker = Str ''#ERROR!''"

text \<open>\<open>String(value)\<close>.\<close>

fun numToString :: "host \<Rightarrow> jsnum \<Rightarrow> string" where
  "numToString h NaN = ''NaN''"
| "numToString h PosInf = ''Infinity''"
| "numToString h NegInf = ''-Infinity''"
| "numToString h (Fin r) =
     (if of_int \<lfloor>r\<rfloor> = r \<and> \<bar>r\<bar> < 10 ^ 21 then numberToString \<lfloor>r\<rfloor> else numberFormat h r)"

fun toStr :: "host \<Rightarrow> jsval \<Rightarrow> string" where
  "toStr h Undefined = ''undefined''"
| "toStr h Null = ''null''"
| "toStr h (Bool b) = (if b then ''true'' else ''false'')"
| "toStr h (Num n) = numToString h n"
| "toStr h (Str s) = s"

section \<open>FormulaParser: argument lists and call patterns\<close>

text \<open>The character loop of \<open>parseArguments\<close>.\<close>

fun parseArgumentsLoop :: "string \<Rightarrow> string \<Rightarrow> bool \<Rightarrow> string list \<Rightarrow> string list" where
  "parseArgumentsLoop [] currentArg insideQuotes args =
     (if trim currentArg \<noteq> [] then args @ [trim currentArg] else args)"
| "parseArgumentsLoop (c # cs) currentArg insideQuotes args =
     (if c = dquote then parseArgumentsLoop cs (currentArg @ [c]) (\<not> insideQuotes) args
      else if c = CHR '','' \<and> \<not> insideQuotes
        then parseArgumentsLoop cs [] insideQuotes (args @ [trim currentArg])
      else parseArgumentsLoop cs (currentArg @ [c]) insideQuotes args)"

definition parseArguments :: "string \<Rightarrow> string list" where
  "parseArguments argsString =
     (if argsString = [] then [] else parseArgumentsLoop argsString [] False [])"

text \<open>
  \<open>expression.match(/NAME\((.*)\)/i)\<close>: the leftmost place where \<open>NAME(\<close> stands,
  in either case, with a closing parenthesis later on the same line; the group is the
  text up to the last such parenthesis. \<open>None\<close> is the \<open>null\<close> of a failed match.
\<close>

definition isLineTerminator :: "char \<Rightarrow> bool" where
  "isLineTerminator c = ((of_char c :: int) \<in> {10, 13})"

definition beforeLast :: "char \<Rightarrow> string \<Rightarrow> string" where
  "beforeLast d s = rev (tl (dropWhile (\<lambda>c. c \<noteq> d) (rev s)))"

definition afterLast :: "char \<Rightarrow> string \<Rightarrow> string" where
  "afterLast d s = rev (takeWhile (\<lambda>c. c \<noteq> d) (rev s))"

definition callBody :: "string \<Rightarrow> string option" where
  "callBody r =
     (let line = takeWhile (\<lambda>c. \<not> isLineTerminator c) r
      in if CHR '')'' \<in> set line then Some (beforeLast (CHR '')'') line) else None)"

definition ciStartsWith :: "string \<Rightarrow> string \<Rightarrow> bool" where
  "ciStartsWith s p = (map toUpperChar (take (length p) s) = p)"

fun matchCall :: "string \<Rightarrow> string \<Rightarrow> string option" where
  "matchCall name [] = None"
| "matchCall name (c # cs) =
     (if ciStartsWith (c # cs) (name @ ''('')
      then (case callBody (drop (length name + 1) (c # cs)) of
              Some g \<Rightarrow> Some g
            | None \<Rightarrow> matchCall name cs)
      else matchCall name cs)"

text \<open>
  \<open>/IF\((.*),(.*),(.*)\)/i\<close>: the three groups are greedy, so the last group ends at the
  last closing parenthesis of the line, the second at the last comma before it, and the
  first at the comma before that one.
\<close>

definition ifGroups :: "string \<Rightarrow> (string \<times> string \<times> string) option" where
  "ifGroups r =
     (case callBody r of
        None \<Rightarrow> None
      | Some body \<Rightarrow>
          if CHR '','' \<notin> set body then None
          else let front = beforeLast (CHR '','') body; g3 = afterLast (CHR '','') body
               in if CHR '','' \<notin> set front then None
                  else Some (beforeLast (CHR '','') front, afterLast (CHR '','') front, g3))"

fun matchIf :: "string \<Rightarrow> (string \<times> string \<times> string) option" where
  "matchIf [] = None"
| "matchIf (c # cs) =
     (if ciStartsWith (c # cs) ''IF(''
      then (case ifGroups (drop 3 (c # cs)) of
              Some g \<Rightarrow> Some g
            | None \<Rightarrow> matchIf cs)
      else matchIf cs)"

text \<open>\<open>s.substring(a, b)\<close>, which exchanges its arguments when \<open>a > b\<close>.\<close>

definition substring :: "nat \<Rightarrow> nat \<Rightarrow> string \<Rightarrow> string" where
  "substring a b s = take (max a b - min a b) (drop (min a b) s)"

section \<open>FormulaParser: reference substitution\<close>

text \<open>
  A match of \<open>/([A-Z]+[0-9]+)(?![A-Za-z0-9])/\<close> that starts at the head of the string:
  all the letters, all the digits, and then no letter or digit. Giving back letters or
  digits cannot help, since the next character is then a letter or a digit.
\<close>

definition matchCellRef :: "string \<Rightarrow> string option" where
  "matchCellRef s =
     (let letters = takeWhile isUpper s; r = dropWhile isUpper s;
          digits = takeWhile isDigit r; r2 = dropWhile isDigit r
      in if letters \<noteq> [] \<and> digits \<noteq> [] \<and> (r2 = [] \<or> \<not> isAlnum (hd r2))
         then Some (letters @ digits) else None)"

definition escapeQuotes :: "string \<Rightarrow> string" where
  "escapeQuotes s = concat (map (\<lambda>c. if c = dquote then [backslash, dquote] else [c]) s)"

text \<open>What the replacement callback returns for the value read, as text.\<close>

definition substituteText :: "host \<Rightarrow> jsval \<Rightarrow> string" where
  "substituteText h v =
     (if \<not> isNaN v \<and> v \<noteq> Str [] then toStr h v
      else if v = Str [] \<or> v = Null \<or> v = Undefined then ''0''
      else dquote # escapeQuotes (toStr h v) @ [dquote])"

definition isFormulaValue :: "jsval \<Rightarrow> bool" where
  "isFormulaValue v = (case v of Str s \<Rightarrow> startsWith s ''='' | _ \<Rightarrow> False)"

text \<open>
  The callback of \<open>expression.replace\<close>, for one match. \<open>ev\<close> is \<open>this.evaluate\<close>; it is
  \<open>None\<close> where the recursion does not come back.
\<close>

definition replaceCallback ::
  "(jsval \<Rightarrow> parser \<Rightarrow> (jsval \<times> parser) option) \<Rightarrow> host \<Rightarrow> string \<Rightarrow> parser
     \<Rightarrow> (string \<times> parser) option" where
  "replaceCallback ev h m p =
     (let p1 = p\<lparr>cellsUsed := setAdd m (cellsUsed p)\<rparr> in
      if m \<in> set (processingStack p1)
      then Some (''0'', p1\<lparr>circularReferences := setAdd m (circularReferences p1)\<rparr>)
      else
        let p2 = p1\<lparr>processingStack := setAdd m (processingStack p1)\<rparr>;
            v0 = getCellValue h m
        in (case (if isFormulaValue v0 then ev v0 p2 else Some (v0, p2)) of
              None \<Rightarrow> None
            | Some (v, p3) \<Rightarrow>
                Some (substituteText h v,
                      p3\<lparr>processingStack := setDelete m (processingStack p3)\<rparr>)))"

function replaceLoop ::
  "(jsval \<Rightarrow> parser \<Rightarrow> (jsval \<times> parser) option) \<Rightarrow> host \<Rightarrow> string \<Rightarrow> parser
     \<Rightarrow> (string \<times> parser) option" where
  "replaceLoop ev h [] p = Some ([], p)"
| "replaceLoop ev h (c # cs) p =
     (case matchCellRef (c # cs) of
        None \<Rightarrow>
          (case replaceLoop ev h cs p of
             None \<Rightarrow> None
           | Some (out, p') \<Rightarrow> Some (c # out, p'))
      | Some m \<Rightarrow>
          (case replaceCallback ev h m p of
             None \<Rightarrow> None
           | Some (txt, p1) \<Rightarrow>
               (case replaceLoop ev h (drop (length m) (c # cs)) p1 of
                  None \<Rightarrow> None
                | Some (out, p2) \<Rightarrow> Some (txt @ out, p2))))"
  by pat_completeness auto
termination
  by (relation "measure (\<lambda>(ev, h, s, p). length s)")
    (auto simp: matchCellRef_def Let_def split: if_splits)

definition replaceCellReferences ::
  "(jsval \<Rightarrow> parser \<Rightarrow> (jsval \<times> parser) option) \<Rightarrow> host \<Rightarrow> string \<Rightarrow> parser
     \<Rightarrow> (string \<times> parser) option" where
  "replaceCellReferences ev h expression p =
     (if expression = [] then Some (''0'', p) else replaceLoop ev h expression p)"


section \<open>FormulaParser: the functions AVERAGE, IF, AND, OR\<close>

definition getNumericCellValue :: "host \<Rightarrow> string \<Rightarrow> parser \<Rightarrow> jsnum \<times> parser" where
  "getNumericCellValue h cellId p =
     (let p1 = p\<lparr>cellsUsed := setAdd cellId (cellsUsed p)\<rparr>;
          numValue = parseFloatVal (getCellValue h cellId)
      in (if numValue = NaN then Fin 0 else numValue, p1))"

text \<open>
  The body shared by the range branch and the single-cell branch of \<open>evaluateAverage\<close>;
  the state is \<open>sum\<close> (here \<open>acc\<close>), \<open>count\<close> and the parser.
\<close>

definition averageCell :: "host \<Rightarrow> string \<Rightarrow> jsnum \<times> nat \<times> parser \<Rightarrow> jsnum \<times> nat \<times> parser" where
  "averageCell h cell st =
     (case st of (acc, count, p) \<Rightarrow>
        (case getNumericCellValue h cell p of (v, p1) \<Rightarrow>
           if v \<noteq> Fin 0 \<or> getCellValue h cell \<noteq> Str []
           then (jadd acc v, count + 1, p1)
           else (acc, count, p1)))"

definition averageArg :: "host \<Rightarrow> string \<Rightarrow> jsnum \<times> nat \<times> parser \<Rightarrow> jsnum \<times> nat \<times> parser" where
  "averageArg h arg st =
     (if CHR '':'' \<in> set arg then foldl (\<lambda>s cell. averageCell h cell s) st (parseCellRange arg)
      else if isValidCellReference arg then averageCell h arg st
      else (case st of (acc, count, p) \<Rightarrow>
              let v = parseFloat arg
              in if v \<noteq> NaN then (jadd acc v, count + 1, p) else st))"

definition evaluateAverage :: "host \<Rightarrow> string \<Rightarrow> parser \<Rightarrow> jsval \<times> parser" where
  "evaluateAverage h expression p =
     (case matchCall ''AVERAGE'' expression of
        None \<Rightarrow> (errorMarker, p)
      | Some g \<Rightarrow>
          if g = [] then (errorMarker, p)
          else
            (case foldl (\<lambda>s arg. averageArg h arg s) (Fin 0, 0, p) (parseArguments g) of
               (acc, count, p1) \<Rightarrow>
                 if count = 0 then (Str ''#DIV/0!'', p1)
                 else (Num (jdivCount acc count), p1)))"

text \<open>One branch value of \<open>evaluateIf\<close>.\<close>

definition ifBranch :: "host \<Rightarrow> string \<Rightarrow> jsval" where
  "ifBranch h v =
     (if isValidCellReference v then getCellValue h v
      else if startsWith v [dquote] \<and> endsWith v [dquote] then Str (substring 1 (length v - 1) v)
      else (case mathEvaluate h v of Some r \<Rightarrow> r | None \<Rightarrow> Str v))"

definition evaluateIf ::
  "(string \<Rightarrow> parser \<Rightarrow> (string \<times> parser) option) \<Rightarrow> host \<Rightarrow> string \<Rightarrow> parser
     \<Rightarrow> (jsval \<times> parser) option" where
  "evaluateIf replaceRefs h expression p =
     (case matchIf expression of
        None \<Rightarrow> Some (errorMarker, p)
      | Some (g1, g2, g3) \<Rightarrow>
          let condition = trim g1; trueValue = trim g2; falseValue = trim g3 in
          (case replaceRefs condition p of
             None \<Rightarrow> None
           | Some (processedCondition, p1) \<Rightarrow>
               (case mathEvaluate h processedCondition of
                  None \<Rightarrow> Some (errorMarker, p1)
                | Some conditionResult \<Rightarrow>
                    if truthy conditionResult then Some (ifBranch h trueValue, p1)
                    else Some (ifBranch h falseValue, p1))))"

text \<open>The conversion to a boolean that \<open>evaluateAnd\<close>, \<open>evaluateOr\<close> and \<open>evaluateNot\<close> share.\<close>

definition argToBoolean :: "jsval \<Rightarrow> bool" where
  "argToBoolean v =
     (case v of
        Str s \<Rightarrow> map toLowerChar s = ''true'' \<or> s = ''1'' \<or> parseFloat s \<noteq> Fin 0
      | _ \<Rightarrow> truthy v)"

definition argValue :: "host \<Rightarrow> string \<Rightarrow> parser \<Rightarrow> jsval \<times> parser" where
  "argValue h arg p =
     (if isValidCellReference arg
      then (getCellValue h arg, p\<lparr>cellsUsed := setAdd arg (cellsUsed p)\<rparr>)
      else ((case mathEvaluate h arg of Some r \<Rightarrow> r | None \<Rightarrow> Str arg), p))"

fun andLoop :: "host \<Rightarrow> string list \<Rightarrow> parser \<Rightarrow> jsval \<times> parser" where
  "andLoop h [] p = (Bool True, p)"
| "andLoop h (arg # args) p =
     (case argValue h arg p of (v, p1) \<Rightarrow>
        if \<not> argToBoolean v then (Bool False, p1) else andLoop h args p1)"

fun orLoop :: "host \<Rightarrow> string list \<Rightarrow> parser \<Rightarrow> jsval \<times> parser" where
  "orLoop h [] p = (Bool False, p)"
| "orLoop h (arg # args) p =
     (case argValue h arg p of (v, p1) \<Rightarrow>
        if argToBoolean v then (Bool True, p1) else orLoop h args p1)"

definition evaluateAnd :: "host \<Rightarrow> string \<Rightarrow> parser \<Rightarrow> jsval \<times> parser" where
  "evaluateAnd h expression p =
     (case matchCall ''AND'' expression of
        None \<Rightarrow> (errorMarker, p)
      | Some g \<Rightarrow> if g = [] then (errorMarker, p) else andLoop h (parseArguments g) p)"

definition evaluateOr :: "host \<Rightarrow> string \<Rightarrow> parser \<Rightarrow> jsval \<times> parser" where
  "evaluateOr h expression p =
     (case matchCall ''OR'' expression of
        None \<Rightarrow> (errorMarker, p)
      | Some g \<Rightarrow> if g = [] then (errorMarker, p) else orLoop h (parseArguments g) p)"

section \<open>FormulaParser: evaluateExpression and evaluate\<close>

text \<open>The result of \<open>math.evaluate\<close> as \<open>evaluateExpression\<close> passes it on.\<close>

definition mathResult :: "host \<Rightarrow> string \<Rightarrow> jsval" where
  "mathResult h expression =
     (case mathEvaluate h expression of
        None \<Rightarrow> errorMarker
      | Some r \<Rightarrow> if r = Undefined \<or> r = Null \<or> r = Num NaN then errorMarker else r)"

definition addCellsUsed :: "string list \<Rightarrow> parser \<Rightarrow> parser" where
  "addCellsUsed cells p = p\<lparr>cellsUsed := foldl (\<lambda>s c. setAdd c s) (cellsUsed p) cells\<rparr>"

definition callOther :: "host \<Rightarrow> string \<Rightarrow> string \<Rightarrow> parser \<Rightarrow> jsval \<times> parser" where
  "callOther h name expression p =
     (case otherFunction h name expression of (v, cells) \<Rightarrow> (v, addCellsUsed cells p))"

definition evaluateExpression ::
  "(string \<Rightarrow> parser \<Rightarrow> (string \<times> parser) option) \<Rightarrow> host \<Rightarrow> string \<Rightarrow> parser
     \<Rightarrow> (jsval \<times> parser) option" where
  "evaluateExpression replaceRefs h expression p =
     (if expression = [] then Some (Num (Fin 0), p)
      else
        let u = map toUpperChar expression in
        if startsWith u ''SUM('' then Some (callOther h ''SUM'' expression p)
        else if startsWith u ''AVERAGE('' then Some (evaluateAverage h expression p)
        else if startsWith u ''MIN('' then Some (callOther h ''MIN'' expression p)
        else if startsWith u ''MAX('' then Some (callOther h ''MAX'' expression p)
        else if startsWith u ''COUNT('' then Some (callOther h ''COUNT'' expression p)
        else if startsWith u ''MEDIAN('' then Some (callOther h ''MEDIAN'' expression p)
        else if startsWith u ''STDEV('' then Some (callOther h ''STDEV'' expression p)
        else if startsWith u ''IF('' then evaluateIf replaceRefs h expression p
        else if startsWith u ''AND('' then Some (evaluateAnd h expression p)
        else if startsWith u ''OR('' then Some (evaluateOr h expression p)
        else if startsWith u ''NOT('' then Some (callOther h ''NOT'' expression p)
        else if startsWith u ''CONCATENATE('' then Some (callOther h ''CONCATENATE'' expression p)
        else if startsWith u ''LEFT('' then Some (callOther h ''LEFT'' expression p)
        else if startsWith u ''RIGHT('' then Some (callOther h ''RIGHT'' expression p)
        else if startsWith u ''MID('' then Some (callOther h ''MID'' expression p)
        else if startsWith u ''LEN('' then Some (callOther h ''LEN'' expression p)
        else if startsWith u ''UPPER('' then Some (callOther h ''UPPER'' expression p)
        else if startsWith u ''LOWER('' then Some (callOther h ''LOWER'' expression p)
        else if startsWith u ''NOW('' then Some (callOther h ''NOW'' expression p)
        else if startsWith u ''TODAY('' then Some (callOther h ''TODAY'' expression p)
        else if startsWith u ''DATE('' then Some (callOther h ''DATE'' expression p)
        else if startsWith u ''YEAR('' then Some (callOther h ''YEAR'' expression p)
        else if startsWith u ''MONTH('' then Some (callOther h ''MONTH'' expression p)
        else if startsWith u ''DAY('' then Some (callOther h ''DAY'' expression p)
        else Some (mathResult h expression, p))"

text \<open>
  Storing a result: \<open>evaluationCache.set\<close>, then the oldest entry is deleted when the
  cache has more than 1000 entries.
\<close>

definition storeResult :: "string \<Rightarrow> jsval \<Rightarrow> parser \<Rightarrow> parser" where
  "storeResult cacheKey result p =
     (let c1 = mapSet cacheKey \<lparr>entryValue = result, entryDependencies = cellsUsed p\<rparr>
                 (evaluationCache p);
          c2 = (if length c1 > 1000 then tl c1 else c1)
      in p\<lparr>evaluationCache := c2\<rparr>)"

definition circularMarker :: "string list \<Rightarrow> jsval" where
  "circularMarker cells = Str (''#CIRCULAR! ('' @ joinWith '', '' cells @ '')'')"

text \<open>
  \<open>evaluate\<close> after the cache has been missed. \<open>ev\<close> is \<open>this.evaluate\<close> for the
  recursive calls of the substitution.
\<close>

definition evaluateMiss ::
  "(jsval \<Rightarrow> parser \<Rightarrow> (jsval \<times> parser) option) \<Rightarrow> host \<Rightarrow> string \<Rightarrow> parser
     \<Rightarrow> (jsval \<times> parser) option" where
  "evaluateMiss ev h formula p =
     (let p1 = p\<lparr>cacheMisses := cacheMisses p + 1, cellsUsed := []\<rparr>;
          expression = trim (tl formula)
      in if expression = [] then Some (Num (Fin 0), p1)
         else
           (case replaceCellReferences ev h expression p1 of
              None \<Rightarrow> None
            | Some (processedExpression, p2) \<Rightarrow>
                if circularReferences p2 \<noteq> []
                then Some (circularMarker (circularReferences p2), p2\<lparr>circularReferences := []\<rparr>)
                else
                  (case evaluateExpression (replaceCellReferences ev h) h processedExpression p2 of
                     None \<Rightarrow> None
                   | Some (result, p3) \<Rightarrow> Some (result, storeResult formula result p3))))"

text \<open>
  \<open>evaluate\<close>. The first argument bounds the depth of the recursion through cells that
  hold formulas: \<open>None\<close> says that the bound was too small for the call to return.
\<close>

primrec evaluate :: "nat \<Rightarrow> host \<Rightarrow> jsval \<Rightarrow> parser \<Rightarrow> (jsval \<times> parser) option" where
  "evaluate 0 h formula p = None"
| "evaluate (Suc n) h formula p =
     (case formula of
        Undefined \<Rightarrow> Some (Str [], p)
      | Null \<Rightarrow> Some (Str [], p)
      | Str s \<Rightarrow>
          if s = [] then Some (Str [], p)
          else if \<not> startsWith s ''='' then Some (formula, p)
          else
            (case map_of (evaluationCache p) s of
               Some cachedResult \<Rightarrow>
                 Some (entryValue cachedResult,
                       p\<lparr>cacheHits := cacheHits p + 1,
                         cellsUsed := entryDependencies cachedResult\<rparr>)
             | None \<Rightarrow> evaluateMiss (evaluate n h) h s p)
      | _ \<Rightarrow> Some (formula, p))"

definition getCellsUsed :: "parser \<Rightarrow> string list" where
  "getCellsUsed p = cellsUsed p"

definition clearCache :: "parser \<Rightarrow> parser" where
  "clearCache p = p\<lparr>evaluationCache := []\<rparr>"

text \<open>
  \<open>invalidateCellDependencies\<close>. The argument is \<open>None\<close> when it is not an array. The
  outer loop runs over the entries of the cache, the inner over the cell ids and stops at
  the first one the entry depends on.
\<close>

fun dependsOnAny :: "string list \<Rightarrow> cacheEntry \<Rightarrow> bool" where
  "dependsOnAny [] entry = False"
| "dependsOnAny (cellId # cellIds) entry =
     (if cellId \<in> set (entryDependencies entry) then True else dependsOnAny cellIds entry)"

fun invalidateLoop ::
  "string list \<Rightarrow> (string \<times> cacheEntry) list \<Rightarrow> (string \<times> cacheEntry) list
     \<Rightarrow> (string \<times> cacheEntry) list" where
  "invalidateLoop cellIds [] cache = cache"
| "invalidateLoop cellIds ((key, entry) # rest) cache =
     invalidateLoop cellIds rest (if dependsOnAny cellIds entry then mapDelete key cache else cache)"

definition invalidateCellDependencies :: "string list option \<Rightarrow> parser \<Rightarrow> parser" where
  "invalidateCellDependencies cellIds p =
     (case cellIds of
        None \<Rightarrow> p
      | Some ids \<Rightarrow>
          p\<lparr>evaluationCache := invalidateLoop ids (evaluationCache p) (evaluationCache p)\<rparr>)"

text \<open>
  A stand-in for mathjs on the expressions of the closed examples below: a decimal
  literal, a string literal in double quotes, and two decimal literals around one of
  \<open>/\<close> and \<open>>\<close>. Everywhere else it throws. \<open>plainHost\<close> is a host with this evaluator
  over a given sheet, and a call stack that is short enough to write out what is
  dispatched when it runs out.
\<close>

definition numberLiteral :: "string \<Rightarrow> rat option" where
  "numberLiteral s =
     (case scanDecimal (trim s) of
        Some (Fin r, []) \<Rightarrow> if list_all (\<lambda>c. isDigit c \<or> c = CHR ''.'') (trim s) then Some r else None
      | _ \<Rightarrow> None)"

definition binaryLiteral :: "char \<Rightarrow> string \<Rightarrow> (rat \<times> rat) option" where
  "binaryLiteral opc s =
     (if opc \<in> set s
      then (case (numberLiteral (takeWhile (\<lambda>c. c \<noteq> opc) s),
                  numberLiteral (tl (dropWhile (\<lambda>c. c \<noteq> opc) s))) of
              (Some a, Some b) \<Rightarrow> Some (a, b)
            | _ \<Rightarrow> None)
      else None)"

definition literalMath :: "string \<Rightarrow> jsval option" where
  "literalMath s =
     (let t = trim s in
      if 2 \<le> length t \<and> hd t = dquote \<and> last t = dquote \<and> dquote \<notin> set (butlast (tl t))
         \<and> backslash \<notin> set t
      then Some (Str (butlast (tl t)))
      else (case numberLiteral t of
              Some r \<Rightarrow> Some (Num (Fin r))
            | None \<Rightarrow>
                (case binaryLiteral (CHR ''/'') t of
                   Some (a, b) \<Rightarrow>
                     Some (Num (if b \<noteq> 0 then Fin (a / b)
                                else if a = 0 then NaN else if 0 < a then PosInf else NegInf))
                 | None \<Rightarrow>
                     (case binaryLiteral (CHR ''>'') t of
                        Some (a, b) \<Rightarrow> Some (Bool (b < a))
                      | None \<Rightarrow> None))))"

definition plainHost :: "(string \<Rightarrow> jsval) \<Rightarrow> host" where
  "plainHost sheet =
     \<lparr>getCellValue = sheet, mathEvaluate = literalMath,
      numberFormat = (\<lambda>r. ''?''), otherFunction = (\<lambda>name expression. (errorMarker, [])),
      callStackLimit = 3\<rparr>"


text \<open>
  The cell references of an expression, in the order in which the substitution meets
  them: the matches of the pattern of \<open>replaceCellReferences\<close>.
\<close>

function refsOf :: "string \<Rightarrow> string list" where
  "refsOf [] = []"
| "refsOf (c # cs) =
     (case matchCellRef (c # cs) of
        None \<Rightarrow> refsOf cs
      | Some m \<Rightarrow> m # refsOf (drop (length m) (c # cs)))"
  by pat_completeness auto
termination
  by (relation "measure length") (auto simp: matchCellRef_def Let_def split: if_splits)

text \<open>
  What the substitution of the references \<open>refs\<close> leaves in the parser when no cell read
  holds a formula: each is added to \<open>cellsUsed\<close>, and to \<open>circularReferences\<close> when it is
  in progress.
\<close>

definition noteRefs :: "string list \<Rightarrow> parser \<Rightarrow> parser" where
  "noteRefs refs p =
     p\<lparr>cellsUsed := foldl (\<lambda>s m. setAdd m s) (cellsUsed p) refs,
       circularReferences :=
         foldl (\<lambda>s m. setAdd m s) (circularReferences p)
           (filter (\<lambda>m. m \<in> set (processingStack p)) refs)\<rparr>"

text \<open>A step returns, and every cell id recorded before it is still recorded after it.\<close>

definition keepsCellsUsed :: "parser \<Rightarrow> (jsval \<times> parser) option \<Rightarrow> bool" where
  "keepsCellsUsed p r =
     (case r of None \<Rightarrow> False | Some (v, p') \<Rightarrow> set (cellsUsed p) \<subseteq> set (cellsUsed p'))"

text \<open>A sheet whose accessor returns no formula text, as the store's computed values are.\<close>

definition plainValues :: "host \<Rightarrow> bool" where
  "plainValues h = (\<forall>c. \<not> isFormulaValue (getCellValue h c))"

section \<open>useSpreadsheetOperations: the dependency edges and the recalculation\<close>

text \<open>
  The state of the hook: the parser (\<open>null\<close> until the effect has run) and the object
  \<open>dependencies\<close>, which maps a cell id to the set of the cells that depend on it.
  \<open>dispatch\<close> queues an action; the actions dispatched by a call are its output.
  \<open>getCellData(cellId).formula\<close> reads the state of the last render, which the
  dispatches of the running call do not change: it is the function \<open>formulaOf\<close>, with
  the empty string where a cell has no formula.
\<close>

datatype action =
  ApplyFormula string string jsval
| UpdateCell string string string

record hook =
  formulaParser :: "parser option"
  dependencies :: "string \<Rightarrow> string list option"

definition addDependency :: "string \<Rightarrow> (string \<Rightarrow> string list option) \<Rightarrow> string
     \<Rightarrow> (string \<Rightarrow> string list option)" where
  "addDependency cellId newDependencies depCellId =
     newDependencies(depCellId \<mapsto>
       setAdd cellId (case newDependencies depCellId of None \<Rightarrow> [] | Some s \<Rightarrow> s))"

text \<open>
  The only exception that the statements below are about: the \<open>RangeError\<close> that the
  engine throws when a call does not fit on the call stack. A thrown exception keeps the
  state reached when it was thrown: the parser, and the actions dispatched so far.
\<close>

datatype error = RangeError

text \<open>
  \<open>recalculateEach\<close> is the \<open>forEach\<close> of \<open>recalculateDependentCells\<close> over the dependent
  cells, at a point where the call stack has room for \<open>depth\<close> more nested calls.
  \<open>recalculateCall\<close> is the call \<open>recalculateDependentCells(cellId)\<close> inside the \<open>try\<close>:
  it throws when the stack has no room for it, returns at once when \<open>cellId\<close> has no
  entry in \<open>dependencies\<close>, and runs the loop over its dependents otherwise. The
  \<open>catch\<close> dispatches \<open>#ERROR!\<close> for the cell at hand, and the loop goes on with the next
  cell. The stack is taken to run out at the entry of a nested call; an engine may
  also run out of it further down, inside \<open>evaluate\<close> or \<open>dispatch\<close>, which the model
  leaves out. The result is \<open>None\<close> when an evaluation does not come back within \<open>fuel\<close>.
\<close>

fun recalculateEach ::
  "nat \<Rightarrow> nat \<Rightarrow> host \<Rightarrow> (string \<Rightarrow> string) \<Rightarrow> (string \<Rightarrow> string list option) \<Rightarrow> string list
     \<Rightarrow> parser \<times> action list \<Rightarrow> (parser \<times> action list) option"
and recalculateCall ::
  "nat \<Rightarrow> nat \<Rightarrow> host \<Rightarrow> (string \<Rightarrow> string) \<Rightarrow> (string \<Rightarrow> string list option) \<Rightarrow> string
     \<Rightarrow> parser \<times> action list \<Rightarrow> (error \<times> (parser \<times> action list) + parser \<times> action list) option"
where
  "recalculateEach depth fuel h formulaOf deps [] st = Some st"
| "recalculateEach depth fuel h formulaOf deps (cellId # rest) st =
     (if formulaOf cellId \<noteq> []
      then
        (case evaluate fuel h (Str (formulaOf cellId)) (fst st) of
           None \<Rightarrow> None
         | Some (evaluatedValue, pr) \<Rightarrow>
             (case recalculateCall depth fuel h formulaOf deps cellId
                     (pr, snd st @ [ApplyFormula cellId (formulaOf cellId) evaluatedValue]) of
                None \<Rightarrow> None
              | Some (Inr st') \<Rightarrow> recalculateEach depth fuel h formulaOf deps rest st'
              | Some (Inl (err, st')) \<Rightarrow>
                  recalculateEach depth fuel h formulaOf deps rest
                    (fst st', snd st' @ [ApplyFormula cellId (formulaOf cellId) (Str ''#ERROR!'')])))
      else recalculateEach depth fuel h formulaOf deps rest st)"
| "recalculateCall 0 fuel h formulaOf deps changedCellId st = Some (Inl (RangeError, st))"
| "recalculateCall (Suc depth) fuel h formulaOf deps changedCellId st =
     (case deps changedCellId of
        None \<Rightarrow> Some (Inr st)
      | Some dependentCells \<Rightarrow>
          map_option Inr (recalculateEach depth fuel h formulaOf deps dependentCells st))"

text \<open>
  \<open>recalculateDependentCells\<close> as the hook exports it, called with the whole call stack
  below it: the guard on \<open>dependencies[changedCellId]\<close> and on the parser, then the loop.
\<close>

definition recalculateDependentCells ::
  "nat \<Rightarrow> host \<Rightarrow> (string \<Rightarrow> string) \<Rightarrow> hook \<Rightarrow> string \<Rightarrow> action list
     \<Rightarrow> (hook \<times> action list) option" where
  "recalculateDependentCells fuel h formulaOf hk changedCellId acts =
     (case (dependencies hk changedCellId, formulaParser hk) of
        (Some ds, Some pr) \<Rightarrow>
          map_option (\<lambda>(pr', acts'). (hk\<lparr>formulaParser := Some pr'\<rparr>, acts'))
            (recalculateEach (callStackLimit h) fuel h formulaOf (dependencies hk) ds (pr, acts))
      | _ \<Rightarrow> Some (hk, acts))"

definition updateCellValue ::
  "nat \<Rightarrow> host \<Rightarrow> (string \<Rightarrow> string) \<Rightarrow> string \<Rightarrow> string \<Rightarrow> hook
     \<Rightarrow> (hook \<times> action list) option" where
  "updateCellValue fuel h formulaOf cellId v hk =
     (case (startsWith v ''='', formulaParser hk) of
        (True, Some pr) \<Rightarrow>
          (case evaluate fuel h (Str v) pr of
             None \<Rightarrow> None
           | Some (evaluatedValue, pr') \<Rightarrow>
               Some (hk\<lparr>formulaParser := Some pr',
                        dependencies := foldl (addDependency cellId) (dependencies hk)
                                          (getCellsUsed pr')\<rparr>,
                     [ApplyFormula cellId v evaluatedValue]))
      | _ \<Rightarrow>
          (if dependencies hk cellId \<noteq> None
           then recalculateDependentCells fuel h formulaOf hk cellId [UpdateCell cellId v []]
           else Some (hk, [UpdateCell cellId v []])))"

text \<open>The dependency edge set: \<open>(a, b)\<close> says that \<open>b\<close> is recorded as depending on \<open>a\<close>.\<close>

definition edgeSet :: "hook \<Rightarrow> (string \<times> string) set" where
  "edgeSet hk = {(a, b). \<exists>ds. dependencies hk a = Some ds \<and> b \<in> set ds}"




section \<open>Sheets and states of the closed examples\<close>

definition sheetOf :: "(string \<times> string) list \<Rightarrow> string \<Rightarrow> jsval" where
  "sheetOf cells cellId = (case map_of cells cellId of None \<Rightarrow> Str [] | Some v \<Rightarrow> Str v)"

definition circularSheet :: "string \<Rightarrow> jsval" where
  "circularSheet = sheetOf [(''A1'', ''=B1''), (''B1'', ''=A1'')]"

definition blankSheet :: "string \<Rightarrow> jsval" where
  "blankSheet = sheetOf []"

definition averageSheet :: "string \<Rightarrow> jsval" where
  "averageSheet = sheetOf [(''A1'', ''1''), (''A2'', ''''), (''A3'', ''3'')]"


definition branchSheet :: "string \<Rightarrow> jsval" where
  "branchSheet = sheetOf [(''A1'', ''10''), (''B1'', ''7''), (''C1'', ''8'')]"

definition halfParser :: parser where
  "halfParser =
     \<lparr>evaluationCache =
        [(''=C1'', \<lparr>entryValue = Num (Fin 8), entryDependencies = [''C1'']\<rparr>),
         (''=A1/2'', \<lparr>entryValue = Num (Fin 5), entryDependencies = [''A1'']\<rparr>)],
      cellsUsed = [''A1''], cacheHits = 0, cacheMisses = 2,
      circularReferences = [], processingStack = []\<rparr>"

definition newHook :: hook where
  "newHook = \<lparr>formulaParser = Some newParser, dependencies = (\<lambda>c. None)\<rparr>"

definition cyclicSheet :: "string \<Rightarrow> jsval" where
  "cyclicSheet = sheetOf [(''A1'', ''2''), (''B1'', ''2''), (''C1'', ''4'')]"


definition cyclicHook :: hook where
  "cyclicHook =
     \<lparr>formulaParser = Some newParser,
      dependencies = [''C1'' \<mapsto> [''B1''], ''A1'' \<mapsto> [''B1''], ''B1'' \<mapsto> [''A1'']]\<rparr>"

section \<open>Column letters and decimal digits are inverse to each other\<close>

lemma columnLoop_append: "columnLoop temp ident = columnLoop temp [] @ ident"
proof (induction "nat temp" arbitrary: temp ident rule: less_induct)
  case less
  show ?case
  proof (cases "temp > 0")
    case True
    let ?c = "char_of ((65 :: int) + (temp - 1) mod 26)"
    let ?t = "(temp - 1) div 26"
    have lt: "nat ?t < nat temp" using True by auto
    have "columnLoop temp ident = columnLoop ?t (?c # ident)"
      using True by (subst columnLoop.simps) simp
    also have "\<dots> = columnLoop ?t [] @ (?c # ident)"
      using less [OF lt] .
    also have "\<dots> = (columnLoop ?t [] @ [?c]) @ ident"
      by simp
    also have "columnLoop ?t [] @ [?c] = columnLoop ?t [?c]"
      using less [OF lt, of "[?c]"] by simp
    also have "columnLoop ?t [?c] = columnLoop temp []"
      using True by (subst (2) columnLoop.simps) simp
    finally show ?thesis .
  next
    case False
    then show ?thesis by (simp add: columnLoop.simps)
  qed
qed

lemma colValue_snoc: "colValue (xs @ [c]) = colValue xs * 26 + (of_char c - 64)"
  by (simp add: colValue_def)

lemma columnLoop_step:
  "0 < temp \<Longrightarrow>
   columnLoop temp [] =
     columnLoop ((temp - 1) div 26) [] @ [char_of ((65 :: int) + (temp - 1) mod 26)]"
  by (subst columnLoop.simps, subst columnLoop_append) simp

lemma colValue_columnLoop: "0 \<le> temp \<Longrightarrow> colValue (columnLoop temp []) = temp"
proof (induction "nat temp" arbitrary: temp rule: less_induct)
  case less
  show ?case
  proof (cases "temp > 0")
    case True
    let ?t = "(temp - 1) div 26"
    have lt: "nat ?t < nat temp" and nn: "0 \<le> ?t" using True by auto
    have r: "0 \<le> (temp - 1) mod 26" "(temp - 1) mod 26 < 26" by simp_all
    have oc: "(of_char (char_of ((65 :: int) + (temp - 1) mod 26)) :: int) = 65 + (temp - 1) mod 26"
      using r by simp
    show ?thesis
      using less(1) [OF lt nn] True
      by (simp add: columnLoop_step colValue_snoc oc)
  next
    case False
    with less(2) have "temp = 0" by simp
    then show ?thesis by (simp add: columnLoop.simps colValue_def)
  qed
qed

lemma colValue_nonneg: "list_all isUpper ident \<Longrightarrow> 0 \<le> colValue ident"
proof (induction ident rule: rev_induct)
  case Nil
  then show ?case by (simp add: colValue_def)
next
  case (snoc c xs)
  then show ?case by (simp add: colValue_snoc isUpper_def)
qed

lemma columnLoop_colValue: "list_all isUpper ident \<Longrightarrow> columnLoop (colValue ident) [] = ident"
proof (induction ident rule: rev_induct)
  case Nil
  then show ?case by (simp add: colValue_def columnLoop.simps)
next
  case (snoc c xs)
  then have up: "isUpper c" and ups: "list_all isUpper xs"
    and ih: "columnLoop (colValue xs) [] = xs" by simp_all
  define d :: int where "d = of_char c - 65"
  have d: "0 \<le> d" "d < 26" using up by (simp_all add: d_def isUpper_def)
  have v: "colValue (xs @ [c]) = colValue xs * 26 + d + 1"
    by (simp add: colValue_snoc d_def)
  have pos: "0 < colValue (xs @ [c])" using colValue_nonneg [OF ups] d v by simp
  have dv: "(colValue (xs @ [c]) - 1) div 26 = colValue xs" using d v by simp
  have md: "(colValue (xs @ [c]) - 1) mod 26 = d" using d v by simp
  have ch: "char_of ((65 :: int) + d) = c" by (simp add: d_def)
  show ?case by (simp add: columnLoop_step [OF pos] dv md ch ih)
qed

lemma columnLoop_upper: "list_all isUpper (columnLoop temp [])"
proof (induction "nat temp" arbitrary: temp rule: less_induct)
  case less
  show ?case
  proof (cases "temp > 0")
    case True
    let ?t = "(temp - 1) div 26"
    have lt: "nat ?t < nat temp" using True by auto
    have r: "0 \<le> (temp - 1) mod 26" "(temp - 1) mod 26 < 26" by simp_all
    have "(of_char (char_of ((65 :: int) + (temp - 1) mod 26)) :: int) = 65 + (temp - 1) mod 26"
      using r by simp
    then have "isUpper (char_of ((65 :: int) + (temp - 1) mod 26))"
      using r unfolding isUpper_def by simp
    then show ?thesis using less [OF lt] by (simp add: columnLoop_step [OF True])
  next
    case False
    then show ?thesis by (simp add: columnLoop.simps)
  qed
qed

lemma columnLoop_nonempty: "0 < temp \<Longrightarrow> columnLoop temp [] \<noteq> []"
  by (simp add: columnLoop_step)

lemma parseDigits_snoc: "parseDigits (xs @ [c]) = parseDigits xs * 10 + (of_char c - 48)"
  by (simp add: parseDigits_def)

lemma digitsOf_step:
  "10 \<le> n \<Longrightarrow> digitsOf n = digitsOf (n div 10) @ [char_of (48 + n mod 10)]"
  by (subst digitsOf.simps) simp

lemma digitsOf_small: "n < 10 \<Longrightarrow> digitsOf n = [char_of (48 + n)]"
  by (subst digitsOf.simps) simp

lemma parseDigits_digitsOf: "0 \<le> n \<Longrightarrow> parseDigits (digitsOf n) = n"
proof (induction "nat n" arbitrary: n rule: less_induct)
  case less
  show ?case
  proof (cases "n < 10")
    case True
    with less(2) have "(of_char (char_of (48 + n)) :: int) = 48 + n" by simp
    with True show ?thesis by (simp add: digitsOf_small parseDigits_def)
  next
    case False
    then have ge: "10 \<le> n" by simp
    have lt: "nat (n div 10) < nat n" and nn: "0 \<le> n div 10" using ge by auto
    have r: "0 \<le> n mod 10" "n mod 10 < 10" by simp_all
    have oc: "(of_char (char_of (48 + n mod 10)) :: int) = 48 + n mod 10"
      using r by simp
    show ?thesis
      using less(1) [OF lt nn]
      by (simp add: digitsOf_step [OF ge] parseDigits_snoc oc)
  qed
qed

lemma digitsOf_digits: "0 \<le> n \<Longrightarrow> list_all isDigit (digitsOf n)"
proof (induction "nat n" arbitrary: n rule: less_induct)
  case less
  show ?case
  proof (cases "n < 10")
    case True
    with less(2) have "(of_char (char_of (48 + n)) :: int) = 48 + n" by simp
    with True less(2) show ?thesis by (simp add: digitsOf_small isDigit_def)
  next
    case False
    then have ge: "10 \<le> n" by simp
    have lt: "nat (n div 10) < nat n" and nn: "0 \<le> n div 10" using ge by auto
    have r: "0 \<le> n mod 10" "n mod 10 < 10" by simp_all
    have oc: "(of_char (char_of (48 + n mod 10)) :: int) = 48 + n mod 10"
      using r by simp
    then have "isDigit (char_of (48 + n mod 10))" using r by (simp add: isDigit_def)
    then show ?thesis
      using less(1) [OF lt nn] by (simp add: digitsOf_step [OF ge])
  qed
qed

lemma digitsOf_nonempty: "digitsOf n \<noteq> []"
  by (subst digitsOf.simps) simp

lemma parseDigits_nonneg: "list_all isDigit ds \<Longrightarrow> 0 \<le> parseDigits ds"
proof (induction ds rule: rev_induct)
  case Nil
  then show ?case by (simp add: parseDigits_def)
next
  case (snoc c xs)
  then show ?case by (simp add: parseDigits_snoc isDigit_def)
qed

lemma parseDigits_pos:
  "list_all isDigit ds \<Longrightarrow> ds \<noteq> [] \<Longrightarrow> hd ds \<noteq> CHR ''0'' \<Longrightarrow> 1 \<le> parseDigits ds"
proof (induction ds rule: rev_induct)
  case Nil
  then show ?case by simp
next
  case (snoc c xs)
  show ?case
  proof (cases "xs = []")
    case True
    with snoc.prems have "isDigit c" "c \<noteq> CHR ''0''" by simp_all
    moreover have "c = CHR ''0''" if h: "(of_char c :: int) = 48"
    proof -
      have "c = char_of (of_char c :: int)" by simp
      also have "\<dots> = char_of (48 :: int)" by (simp only: h)
      also have "\<dots> = CHR ''0''" by (simp add: char_of_def)
      finally show ?thesis .
    qed
    ultimately have "49 \<le> (of_char c :: int)" unfolding isDigit_def by fastforce
    with True show ?thesis by (simp add: parseDigits_def)
  next
    case False
    with snoc have "1 \<le> parseDigits xs" "isDigit c" by simp_all
    then show ?thesis by (simp add: parseDigits_snoc isDigit_def)
  qed
qed

lemma digitsOf_parseDigits:
  "list_all isDigit ds \<Longrightarrow> ds \<noteq> [] \<Longrightarrow> hd ds \<noteq> CHR ''0'' \<Longrightarrow> digitsOf (parseDigits ds) = ds"
proof (induction ds rule: rev_induct)
  case Nil
  then show ?case by simp
next
  case (snoc c xs)
  then have dc: "isDigit c" and dxs: "list_all isDigit xs" by simp_all
  define d :: int where "d = of_char c - 48"
  have d: "0 \<le> d" "d < 10" using dc by (simp_all add: d_def isDigit_def)
  have ch: "char_of (48 + d) = c" by (simp add: d_def)
  show ?case
  proof (cases "xs = []")
    case True
    then have "parseDigits (xs @ [c]) = d" by (simp add: parseDigits_def d_def)
    with True d ch show ?thesis by (simp add: digitsOf_small)
  next
    case False
    with snoc.prems have hd: "hd xs \<noteq> CHR ''0''" by simp
    have p: "1 \<le> parseDigits xs" using parseDigits_pos [OF dxs False hd] .
    have v: "parseDigits (xs @ [c]) = parseDigits xs * 10 + d"
      by (simp add: parseDigits_snoc d_def)
    have ge: "10 \<le> parseDigits (xs @ [c])" using p d v by simp
    have dv: "parseDigits (xs @ [c]) div 10 = parseDigits xs" using d v by simp
    have md: "parseDigits (xs @ [c]) mod 10 = d" using d v by simp
    show ?thesis
      using snoc.IH [OF dxs False hd] by (simp add: digitsOf_step [OF ge] dv md ch)
  qed
qed


lemma digit_not_upper: "isDigit c \<Longrightarrow> \<not> isUpper c"
  by (simp add: isDigit_def isUpper_def)

lemma takeWhile_upper_then_digits:
  assumes "list_all isUpper L" "list_all isDigit D"
  shows "takeWhile isUpper (L @ D) = L"
proof -
  have "takeWhile isUpper D = []"
    using assms(2) by (cases D) (simp_all add: digit_not_upper)
  moreover have "\<forall>x\<in>set L. isUpper x" using assms(1) by (simp add: list_all_iff)
  ultimately show ?thesis by (simp add: takeWhile_append2)
qed

lemma trailing_digits:
  assumes "list_all isUpper L" "list_all isDigit D"
  shows "rev (takeWhile isDigit (rev (L @ D))) = D"
proof -
  have "takeWhile isDigit (rev L) = []"
    using assms(1) by (cases "rev L") (auto simp: list_all_iff dest: digit_not_upper)
  moreover have "\<forall>x\<in>set (rev D). isDigit x" using assms(2) by (simp add: list_all_iff)
  ultimately have "takeWhile isDigit (rev D @ rev L) = rev D"
    by (simp only: takeWhile_append2 append_Nil2)
  then show ?thesis by simp
qed

lemma getCellIndices_letters_digits:
  assumes "L \<noteq> []" "list_all isUpper L" "D \<noteq> []" "list_all isDigit D"
  shows "getCellIndices (L @ D) = Some (colValue L - 1, parseDigits D - 1)"
  using assms
  by (simp add: getCellIndices_def Let_def takeWhile_upper_then_digits trailing_digits
      getColumnIndex_def del: rev_append)

text \<open>
  Claim C8. For column and row indices that are non-negative (safe) integers,
  \<open>getCellIndices (getCellId col row)\<close> returns \<open>(col, row)\<close>; and for a canonical cell id,
  that is uppercase letters \<open>L\<close> followed by a row number \<open>D\<close> written in decimal digits
  without a leading zero (so it is at least 1), \<open>getCellIndices\<close> succeeds and
  \<open>getCellId\<close> applied to its result gives the id back.
\<close>

theorem cell_id_round_trip:
  "(0 \<le> col \<and> col < 2 ^ 53 \<and> 0 \<le> row \<and> row + 1 < 2 ^ 53
      \<longrightarrow> getCellIndices (getCellId col row) = Some (col, row))
   \<and> (L \<noteq> [] \<and> list_all isUpper L \<and> D \<noteq> [] \<and> list_all isDigit D \<and> hd D \<noteq> CHR ''0''
        \<and> colValue L < 2 ^ 53 \<and> parseDigits D < 2 ^ 53
      \<longrightarrow> (\<exists>c r. getCellIndices (L @ D) = Some (c, r) \<and> getCellId c r = L @ D))"
proof (intro conjI impI)
  assume h: "0 \<le> col \<and> col < 2 ^ 53 \<and> 0 \<le> row \<and> row + 1 < 2 ^ 53"
  then have c: "0 < col + 1" and r: "0 \<le> row + 1" by simp_all
  have "getCellIndices (columnLoop (col + 1) [] @ digitsOf (row + 1))
        = Some (colValue (columnLoop (col + 1) []) - 1, parseDigits (digitsOf (row + 1)) - 1)"
    by (rule getCellIndices_letters_digits)
      (simp_all add: columnLoop_nonempty [OF c] columnLoop_upper digitsOf_nonempty
        digitsOf_digits [OF r])
  then show "getCellIndices (getCellId col row) = Some (col, row)"
    using c r by (simp add: getCellId_def getColumnId_def numberToString_def
        colValue_columnLoop parseDigits_digitsOf)
next
  assume h: "L \<noteq> [] \<and> list_all isUpper L \<and> D \<noteq> [] \<and> list_all isDigit D \<and> hd D \<noteq> CHR ''0''
        \<and> colValue L < 2 ^ 53 \<and> parseDigits D < 2 ^ 53"
  then have L: "L \<noteq> []" "list_all isUpper L" and D: "D \<noteq> []" "list_all isDigit D" "hd D \<noteq> CHR ''0''"
    by simp_all
  have p: "1 \<le> parseDigits D" using parseDigits_pos [OF D(2) D(1) D(3)] .
  have g: "getCellIndices (L @ D) = Some (colValue L - 1, parseDigits D - 1)"
    using getCellIndices_letters_digits [OF L D(1) D(2)] .
  have "getCellId (colValue L - 1) (parseDigits D - 1) = L @ D"
    using p by (simp add: getCellId_def getColumnId_def numberToString_def
        columnLoop_colValue [OF L(2)] digitsOf_parseDigits [OF D(2) D(1) D(3)])
  with g show "\<exists>c r. getCellIndices (L @ D) = Some (c, r) \<and> getCellId c r = L @ D"
    by blast
qed

theorem cell_id_round_trip_witness:
  "getCellIndices (getCellId 27 9) = Some (27, 9)
   \<and> (\<exists>c r. getCellIndices (''AB'' @ ''10'') = Some (c, r) \<and> getCellId c r = ''AB'' @ ''10'')"
  using cell_id_round_trip [of 27 9 "''AB''" "''10''"]
  by (simp add: isUpper_def isDigit_def colValue_def parseDigits_def)



section \<open>Range expansion\<close>

lemma colLoopFull_eq:
  "colLoopFull col maxCol row cells = cells @ map (\<lambda>c. cellName c row) [col..maxCol]"
proof (induction col maxCol row cells rule: colLoopFull.induct)
  case (1 col maxCol row cells)
  show ?case
  proof (cases "col \<le> maxCol")
    case True
    then have "[col..maxCol] = col # [col + 1..maxCol]" by (simp add: upto_rec1)
    with 1 True show ?thesis by (subst colLoopFull.simps) simp
  next
    case False
    then show ?thesis by (subst colLoopFull.simps) simp
  qed
qed

lemma rowMajorCells_rec:
  "minRow \<le> maxRow \<Longrightarrow>
   rowMajorCells minCol maxCol minRow maxRow =
     map (\<lambda>c. cellName c minRow) [minCol..maxCol] @ rowMajorCells minCol maxCol (minRow + 1) maxRow"
  by (simp add: rowMajorCells_def upto_rec1)

lemma rowMajorCells_empty: "maxRow < minRow \<Longrightarrow> rowMajorCells minCol maxCol minRow maxRow = []"
  by (simp add: rowMajorCells_def)

lemma rowLoopFull_eq:
  "rowLoopFull row maxRow minCol maxCol cells = cells @ rowMajorCells minCol maxCol row maxRow"
proof (induction row maxRow minCol maxCol cells rule: rowLoopFull.induct)
  case (1 row maxRow minCol maxCol cells)
  show ?case
  proof (cases "row \<le> maxRow")
    case True
    with 1 show ?thesis
      by (subst rowLoopFull.simps) (simp add: colLoopFull_eq rowMajorCells_rec)
  next
    case False
    then show ?thesis by (subst rowLoopFull.simps) (simp add: rowMajorCells_empty)
  qed
qed

lemma colLoopLimited_eq:
  "0 \<le> m \<Longrightarrow> length cells \<le> nat m \<Longrightarrow> n = int (length cells) \<Longrightarrow>
   colLoopLimited col maxCol row m (cells, n) =
     (take (nat m) (cells @ map (\<lambda>c. cellName c row) [col..maxCol]),
      int (length (take (nat m) (cells @ map (\<lambda>c. cellName c row) [col..maxCol]))))"
proof (induction k \<equiv> "nat (maxCol + 1 - col)" arbitrary: col cells n)
  case 0
  then have gt: "maxCol < col" by simp
  then have "colLoopLimited col maxCol row m (cells, n) = (cells, n)"
    by (subst colLoopLimited.simps) simp
  moreover have "[col..maxCol] = []" using gt by simp
  ultimately show ?case using 0 by simp
next
  case (Suc k)
  then have le: "col \<le> maxCol" by simp
  then have u: "[col..maxCol] = col # [col + 1..maxCol]" by (simp add: upto_rec1)
  show ?case
  proof (cases "n < m")
    case True
    have l: "length (cells @ [cellName col row]) \<le> nat m" using True Suc.prems by auto
    have k: "k = nat (maxCol + 1 - (col + 1))" using Suc.hyps(2) by simp
    have n: "n + 1 = int (length (cells @ [cellName col row]))" using Suc.prems by simp
    have "colLoopLimited col maxCol row m (cells, n)
          = colLoopLimited (col + 1) maxCol row m (cells @ [cellName col row], n + 1)"
      using True le by (subst colLoopLimited.simps) simp
    also have "\<dots> = (take (nat m) ((cells @ [cellName col row]) @ map (\<lambda>c. cellName c row) [col + 1..maxCol]),
      int (length (take (nat m) ((cells @ [cellName col row]) @ map (\<lambda>c. cellName c row) [col + 1..maxCol]))))"
      by (rule Suc.hyps(1) [OF k Suc.prems(1) l n])
    finally show ?thesis using u by simp
  next
    case False
    then have "colLoopLimited col maxCol row m (cells, n) = (cells, n)"
      by (subst colLoopLimited.simps) simp
    moreover have "length cells = nat m" using False Suc.prems by linarith
    ultimately show ?thesis using Suc.prems by simp
  qed
qed

lemma take_take_append: "take n (take n xs @ ys) = take n (xs @ ys)"
  by (cases "n \<le> length xs") simp_all

lemma rowLoopLimited_eq:
  "0 \<le> m \<Longrightarrow> length cells \<le> nat m \<Longrightarrow> n = int (length cells) \<Longrightarrow>
   rowLoopLimited row maxRow minCol maxCol m (cells, n) =
     (take (nat m) (cells @ rowMajorCells minCol maxCol row maxRow),
      int (length (take (nat m) (cells @ rowMajorCells minCol maxCol row maxRow))))"
proof (induction k \<equiv> "nat (maxRow + 1 - row)" arbitrary: row cells n)
  case 0
  then have gt: "maxRow < row" by simp
  then have "rowLoopLimited row maxRow minCol maxCol m (cells, n) = (cells, n)"
    by (subst rowLoopLimited.simps) simp
  then show ?case using 0 gt by (simp add: rowMajorCells_empty)
next
  case (Suc k)
  then have le: "row \<le> maxRow" by simp
  let ?line = "map (\<lambda>c. cellName c row) [minCol..maxCol]"
  let ?cells' = "take (nat m) (cells @ ?line)"
  show ?case
  proof (cases "n < m")
    case True
    have l: "length ?cells' \<le> nat m" by simp
    have k: "k = nat (maxRow + 1 - (row + 1))" using Suc.hyps(2) by simp
    have "rowLoopLimited row maxRow minCol maxCol m (cells, n)
          = rowLoopLimited (row + 1) maxRow minCol maxCol m (colLoopLimited minCol maxCol row m (cells, n))"
      using True le by (subst rowLoopLimited.simps) simp
    also have "colLoopLimited minCol maxCol row m (cells, n) = (?cells', int (length ?cells'))"
      by (rule colLoopLimited_eq [OF Suc.prems])
    also have "rowLoopLimited (row + 1) maxRow minCol maxCol m (?cells', int (length ?cells'))
          = (take (nat m) (?cells' @ rowMajorCells minCol maxCol (row + 1) maxRow),
             int (length (take (nat m) (?cells' @ rowMajorCells minCol maxCol (row + 1) maxRow))))"
      by (rule Suc.hyps(1) [OF k Suc.prems(1) l refl])
    also have "take (nat m) (?cells' @ rowMajorCells minCol maxCol (row + 1) maxRow)
          = take (nat m) (cells @ rowMajorCells minCol maxCol row maxRow)"
      by (simp only: rowMajorCells_rec [OF le] take_take_append append_assoc)
    finally show ?thesis .
  next
    case False
    then have "rowLoopLimited row maxRow minCol maxCol m (cells, n) = (cells, n)"
      by (subst rowLoopLimited.simps) simp
    moreover have "length cells = nat m" using False Suc.prems by linarith
    ultimately show ?thesis using Suc.prems by simp
  qed
qed

lemma length_rowMajorCells:
  "minCol \<le> maxCol + 1 \<Longrightarrow> minRow \<le> maxRow + 1 \<Longrightarrow>
   int (length (rowMajorCells minCol maxCol minRow maxRow)) = (maxRow - minRow + 1) * (maxCol - minCol + 1)"
  by (simp add: rowMajorCells_def length_concat comp_def sum_list_triv algebra_simps)


lemma splitOn_no_delim: "d \<notin> set s \<Longrightarrow> splitOn d s = [s]"
  by (induction s) auto

lemma splitOn_append: "d \<notin> set a \<Longrightarrow> splitOn d (a @ d # b) = a # splitOn d b"
  by (induction a) auto

lemma upper_not_ws: "isUpper c \<Longrightarrow> \<not> isWs c"
  by (auto simp: isUpper_def isWs_def)

lemma digit_not_ws: "isDigit c \<Longrightarrow> \<not> isWs c"
  by (auto simp: isDigit_def isWs_def)

lemma colon_not_upper: "\<not> isUpper (CHR '':'')" and colon_not_digit: "\<not> isDigit (CHR '':'')"
  by (simp_all add: isUpper_def isDigit_def)

lemma dropWhile_hd: "xs \<noteq> [] \<Longrightarrow> \<not> P (hd xs) \<Longrightarrow> dropWhile P xs = xs"
  by (cases xs) simp_all

lemma ref_text_facts:
  assumes "L \<noteq> []" "list_all isUpper L" "D \<noteq> []" "list_all isDigit D"
  shows "trim (L @ D) = L @ D"
    and "takeWhile isUpper (L @ D) = L"
    and "dropWhile isUpper (L @ D) = D"
    and "CHR '':'' \<notin> set (L @ D)"
    and "isValidCellReference (L @ D)"
proof -
  have hdL: "\<not> isWs (hd L)" using assms(1,2) by (cases L) (simp_all add: upper_not_ws)
  have lastD: "\<not> isWs (last D)"
    using assms(3,4) by (metis digit_not_ws last_in_set list_all_iff)
  have "dropWhile isWs (L @ D) = L @ D" using assms(1) hdL by (cases L) simp_all
  moreover have "hd (rev (L @ D)) = last D" using assms(3) by (simp add: hd_rev)
  then have "dropWhile isWs (rev (L @ D)) = rev (L @ D)"
    using assms(3) lastD by (intro dropWhile_hd) simp_all
  ultimately show t: "trim (L @ D) = L @ D" by (simp add: trim_def del: rev_append)
  have tD: "takeWhile isUpper D = []"
    using assms(3,4) by (cases D) (simp_all add: digit_not_upper)
  have allL: "\<forall>x\<in>set L. isUpper x" using assms(2) by (simp add: list_all_iff)
  show tw: "takeWhile isUpper (L @ D) = L" using tD allL by (simp add: takeWhile_append2)
  have "dropWhile isUpper D = D"
    using assms(3,4) by (cases D) (simp_all add: digit_not_upper)
  then show dw: "dropWhile isUpper (L @ D) = D" using allL by (simp add: dropWhile_append2)
  show "CHR '':'' \<notin> set (L @ D)"
    using assms(2,4) colon_not_upper colon_not_digit by (auto simp: list_all_iff)
  show "isValidCellReference (L @ D)"
    using assms by (simp add: isValidCellReference_def isCellRefText_def t tw dw Let_def)
qed


lemma generateCellRange_eq:
  "generateCellRange c1 r1 c2 r2 = rowMajorCells (min c1 c2) (max c1 c2) (min r1 r2) (max r1 r2)"
  by (simp add: generateCellRange_def rowLoopFull_eq)

lemma generateLimitedRange_eq:
  "0 \<le> m \<Longrightarrow>
   generateLimitedRange c1 r1 c2 r2 m =
     take (nat m) (rowMajorCells (min c1 c2) (max c1 c2) (min r1 r2) (max r1 r2))"
  using rowLoopLimited_eq [of m "[]" 0]
  by (simp add: generateLimitedRange_def)

lemma rectangle_size:
  "int (length (rowMajorCells (min c1 c2) (max c1 c2) (min r1 r2) (max r1 r2)))
     = (\<bar>r2 - r1\<bar> + 1) * (\<bar>c2 - c1\<bar> + 1)"
proof -
  have "max r1 r2 - min r1 r2 = \<bar>r2 - r1\<bar>" "max c1 c2 - min c1 c2 = \<bar>c2 - c1\<bar>" by auto
  moreover have "min c1 c2 \<le> max c1 c2 + 1" "min r1 r2 \<le> max r1 r2 + 1" by auto
  ultimately show ?thesis by (simp add: length_rowMajorCells)
qed

lemma parseCellRange_refs:
  assumes a: "L1 \<noteq> []" "list_all isUpper L1" "D1 \<noteq> []" "list_all isDigit D1"
    and b: "L2 \<noteq> []" "list_all isUpper L2" "D2 \<noteq> []" "list_all isDigit D2"
    and rows: "0 < parseDigits D1" "0 < parseDigits D2"
  shows "parseCellRange ((L1 @ D1) @ CHR '':'' # (L2 @ D2)) =
     take 1000 (rowMajorCells (min (colValue L1) (colValue L2)) (max (colValue L1) (colValue L2))
                  (min (parseDigits D1) (parseDigits D2)) (max (parseDigits D1) (parseDigits D2)))"
proof -
  note fa = ref_text_facts [OF a] and fb = ref_text_facts [OF b]
  let ?cells = "rowMajorCells (min (colValue L1) (colValue L2)) (max (colValue L1) (colValue L2))
                  (min (parseDigits D1) (parseDigits D2)) (max (parseDigits D1) (parseDigits D2))"
  have sp: "splitOn (CHR '':'') ((L1 @ D1) @ CHR '':'' # (L2 @ D2)) = [L1 @ D1, L2 @ D2]"
    using splitOn_append [OF fa(4), of "L2 @ D2"] splitOn_no_delim [OF fb(4)] by simp
  have cl: "columnLetterToIndex L1 = colValue L1" "columnLetterToIndex L2 = colValue L2"
    using a b by (simp_all add: columnLetterToIndex_def)
  have ne: "(L1 @ D1) @ CHR '':'' # (L2 @ D2) \<noteq> []" by simp
  have sz: "int (length ?cells) = (\<bar>parseDigits D2 - parseDigits D1\<bar> + 1) * (\<bar>colValue L2 - colValue L1\<bar> + 1)"
    by (rule rectangle_size)
  show ?thesis
  proof (cases "(\<bar>parseDigits D2 - parseDigits D1\<bar> + 1) * (\<bar>colValue L2 - colValue L1\<bar> + 1) > 1000")
    case True
    then show ?thesis
      using rows ne
      by (simp add: parseCellRange_def sp fa fb cl Let_def generateLimitedRange_eq del: append_assoc)
  next
    case False
    then have "length ?cells \<le> 1000" using sz by linarith
    then have "take 1000 ?cells = ?cells" by simp
    then show ?thesis
      using rows ne False
      by (simp add: parseCellRange_def sp fa fb cl Let_def generateCellRange_eq del: append_assoc)
  qed
qed

text \<open>
  Claim C7. For a range token \<open>L1 D1 : L2 D2\<close> of two cell references with row numbers
  of at least 1, \<open>parseCellRange\<close> returns the first 1000 cells of the row-major
  enumeration of the rectangle between the smaller and the larger column and the smaller
  and the larger row: at most 1000 cells, exactly 1000 when the rectangle has more, and
  the whole enumeration when it has at most 1000.
\<close>

theorem range_expansion_cap:
  "L1 \<noteq> [] \<and> list_all isUpper L1 \<and> D1 \<noteq> [] \<and> list_all isDigit D1 \<and>
   L2 \<noteq> [] \<and> list_all isUpper L2 \<and> D2 \<noteq> [] \<and> list_all isDigit D2 \<and>
   0 < parseDigits D1 \<and> parseDigits D1 < 2 ^ 53 \<and> 0 < parseDigits D2 \<and> parseDigits D2 < 2 ^ 53 \<and>
   colValue L1 < 2 ^ 53 \<and> colValue L2 < 2 ^ 53 \<and>
   rect = rowMajorCells (min (colValue L1) (colValue L2)) (max (colValue L1) (colValue L2))
            (min (parseDigits D1) (parseDigits D2)) (max (parseDigits D1) (parseDigits D2)) \<and>
   cells = parseCellRange ((L1 @ D1) @ CHR '':'' # (L2 @ D2))
   \<Longrightarrow>
     int (length rect) = (\<bar>parseDigits D2 - parseDigits D1\<bar> + 1) * (\<bar>colValue L2 - colValue L1\<bar> + 1)
     \<and> cells = take 1000 rect
     \<and> length cells \<le> 1000
     \<and> (1000 < length rect \<longrightarrow> length cells = 1000)
     \<and> (length rect \<le> 1000 \<longrightarrow> cells = rect)"
proof -
  assume h: "L1 \<noteq> [] \<and> list_all isUpper L1 \<and> D1 \<noteq> [] \<and> list_all isDigit D1 \<and>
   L2 \<noteq> [] \<and> list_all isUpper L2 \<and> D2 \<noteq> [] \<and> list_all isDigit D2 \<and>
   0 < parseDigits D1 \<and> parseDigits D1 < 2 ^ 53 \<and> 0 < parseDigits D2 \<and> parseDigits D2 < 2 ^ 53 \<and>
   colValue L1 < 2 ^ 53 \<and> colValue L2 < 2 ^ 53 \<and>
   rect = rowMajorCells (min (colValue L1) (colValue L2)) (max (colValue L1) (colValue L2))
            (min (parseDigits D1) (parseDigits D2)) (max (parseDigits D1) (parseDigits D2)) \<and>
   cells = parseCellRange ((L1 @ D1) @ CHR '':'' # (L2 @ D2))"
  then have c: "cells = take 1000 rect"
    using parseCellRange_refs [of L1 D1 L2 D2] by simp
  have sz: "int (length rect) = (\<bar>parseDigits D2 - parseDigits D1\<bar> + 1) * (\<bar>colValue L2 - colValue L1\<bar> + 1)"
    using h rectangle_size by simp
  show ?thesis using c sz by simp
qed

theorem range_expansion_cap_witness:
  "length (parseCellRange (''A1'' @ CHR '':'' # ''Z100'')) = 1000
   \<and> parseCellRange (''A1'' @ CHR '':'' # ''Z100'') = take 1000 (rowMajorCells 1 26 1 100)
   \<and> parseCellRange (''B2'' @ CHR '':'' # ''A1'') = [''A1'', ''B1'', ''A2'', ''B2'']"
proof -
  have r: "rowMajorCells 1 2 1 2 = [''A1'', ''B1'', ''A2'', ''B2'']" by code_simp
  have "length (rowMajorCells 1 26 1 100) = 2600"
    using rectangle_size [of 1 26 1 100] by simp
  then show ?thesis
    using range_expansion_cap [of "''A''" "''1''" "''Z''" "''100''" "rowMajorCells 1 26 1 100"
        "parseCellRange (''A1'' @ CHR '':'' # ''Z100'')"]
      range_expansion_cap [of "''B''" "''2''" "''A''" "''1''" "rowMajorCells 1 2 1 2"
        "parseCellRange (''B2'' @ CHR '':'' # ''A1'')"] r
    by (simp add: isUpper_def isDigit_def parseDigits_def colValue_def)
qed


section \<open>Evaluation on concrete sheets\<close>

lemmas char_defs = isUpper_def isLower_def isDigit_def isAlnum_def isWs_def dquote_def backslash_def
  isLineTerminator_def

lemmas scan_defs = startsWith_def endsWith_def trim_def trimStart_def scanDecimal_def splitSign_def
  scanExponent_def scaleTen_def parseDigits_def parseFloat_def stringIsNaN_def isRadixLiteral_def
  isHexDigit_def

lemmas parser_defs = evaluateMiss_def replaceCellReferences_def replaceCallback_def matchCellRef_def
  substituteText_def isFormulaValue_def setAdd_def setDelete_def escapeQuotes_def
  circularMarker_def evaluateExpression_def mathResult_def storeResult_def mapSet_def
  toUpperChar_def toLowerChar_def errorMarker_def Let_def

lemmas call_defs = ciStartsWith_def callBody_def ifGroups_def
  beforeLast_def afterLast_def parseArguments_def

lemmas library_defs = evaluateAverage_def averageArg_def averageCell_def getNumericCellValue_def
  evaluateIf_def ifBranch_def evaluateAnd_def evaluateOr_def argValue_def argToBoolean_def
  isValidCellReference_def isCellRefText_def substring_def

lemmas stand_in_defs = plainHost_def sheetOf_def literalMath_def numberLiteral_def
  binaryLiteral_def newParser_def

text \<open>
  Claim C1. On a sheet where A1 holds \<open>=B1\<close> and B1 holds \<open>=A1\<close>, evaluating A1's formula
  \<open>=B1\<close> returns for every recursion bound of at least 3, and the value is the text
  \<open>#CIRCULAR! (B1)\<close>: a string, not a number, that names the cell B1. The parser starts
  with no cached entry for the two formulas and nothing in progress; mathjs evaluates the
  quoted text that the substitution writes to that text.
\<close>

theorem circular_pair_returns_marker:
  assumes "getCellValue h ''A1'' = Str ''=B1''" and "getCellValue h ''B1'' = Str ''=A1''"
    and "mathEvaluate h ''\"#CIRCULAR! (B1)\"'' = Some (Str ''#CIRCULAR! (B1)'')"
    and "map_of (evaluationCache p) ''=A1'' = None" and "map_of (evaluationCache p) ''=B1'' = None"
    and "processingStack p = []" and "circularReferences p = []"
  shows "\<exists>p'. evaluate (Suc (Suc (Suc n))) h (Str ''=B1'') p
              = Some (Str ''#CIRCULAR! (B1)'', p')"
  using assms
  by (simp add: parser_defs scan_defs char_defs)

theorem circular_pair_returns_marker_witness:
  "\<exists>p'. evaluate 3 (plainHost circularSheet) (Str ''=B1'') newParser
          = Some (Str ''#CIRCULAR! (B1)'', p')"
proof -
  have "evaluate (Suc (Suc (Suc 0))) (plainHost circularSheet) (Str ''=B1'') newParser
        = evaluate 3 (plainHost circularSheet) (Str ''=B1'') newParser"
    by (simp only: numeral_3_eq_3)
  moreover have "\<exists>p'. evaluate (Suc (Suc (Suc 0))) (plainHost circularSheet) (Str ''=B1'') newParser
          = Some (Str ''#CIRCULAR! (B1)'', p')"
    by (rule circular_pair_returns_marker)
      (simp_all add: stand_in_defs circularSheet_def scan_defs char_defs)
  ultimately show ?thesis by simp
qed

text \<open>
  Claim C5, what the code does. \<open>evaluate\<close> hands \<open>5/0\<close> to mathjs and passes the result
  on unless it is \<open>undefined\<close>, \<open>null\<close> or \<open>NaN\<close>. mathjs divides as the host does, so
  the result is \<open>Infinity\<close>, and \<open>evaluate\<close> returns \<open>Infinity\<close>, not \<open>#DIV/0!\<close>.
\<close>

theorem division_by_zero_returns_infinity:
  assumes "mathEvaluate h ''5/0'' = Some (Num PosInf)"
    and "map_of (evaluationCache p) ''=5/0'' = None" and "circularReferences p = []"
  shows "\<exists>p'. evaluate (Suc n) h (Str ''=5/0'') p = Some (Num PosInf, p')"
  using assms
  by (simp add: parser_defs scan_defs char_defs)

theorem division_by_zero_returns_infinity_witness:
  "\<exists>p'. evaluate 1 (plainHost blankSheet) (Str ''=5/0'') newParser = Some (Num PosInf, p')"
  using division_by_zero_returns_infinity [of "plainHost blankSheet" newParser 0]
  by (simp add: stand_in_defs scan_defs char_defs)

text \<open>
  Claim C6, what the code does. A1 holds 1, A2 is blank and A3 holds 3.
  \<open>evaluateAverage\<close> applied to \<open>AVERAGE(A1:A3)\<close> itself divides by the two cells that are
  not blank and returns 2. \<open>evaluate\<close> replaces the cell references before it calls
  \<open>evaluateAverage\<close>, which then receives \<open>AVERAGE(1:3)\<close>, finds no cell and returns
  \<open>#DIV/0!\<close>; for \<open>=AVERAGE(A1,A2,A3)\<close> it receives \<open>AVERAGE(1,0,3)\<close> and divides by 3 (the
  quotient 4/3 stands for the double nearest to it).
\<close>

theorem average_through_evaluate:
  assumes "getCellValue h ''A1'' = Str ''1''" and "getCellValue h ''A2'' = Str []"
    and "getCellValue h ''A3'' = Str ''3''"
    and "map_of (evaluationCache p) ''=AVERAGE(A1:A3)'' = None"
    and "map_of (evaluationCache p) ''=AVERAGE(A1,A2,A3)'' = None"
    and "processingStack p = []" and "circularReferences p = []"
  shows "fst (evaluateAverage h ''AVERAGE(A1:A3)'' p) = Num (Fin 2)
    \<and> (\<exists>p'. evaluate (Suc n) h (Str ''=AVERAGE(A1:A3)'') p = Some (Str ''#DIV/0!'', p'))
    \<and> (\<exists>p'. evaluate (Suc n) h (Str ''=AVERAGE(A1,A2,A3)'') p = Some (Num (Fin (4 / 3)), p'))"
proof (intro conjI)
  have r: "parseCellRange ''A1:A3'' = [''A1'', ''A2'', ''A3'']" by code_simp
  show "fst (evaluateAverage h ''AVERAGE(A1:A3)'' p) = Num (Fin 2)"
    using assms(1-3)
    by (simp add: library_defs call_defs r scan_defs char_defs toUpperChar_def Let_def)
  have e: "parseCellRange ''1:3'' = []" by code_simp
  show "\<exists>p'. evaluate (Suc n) h (Str ''=AVERAGE(A1:A3)'') p = Some (Str ''#DIV/0!'', p')"
    using assms
    by (simp add: parser_defs library_defs call_defs e scan_defs char_defs)
  show "\<exists>p'. evaluate (Suc n) h (Str ''=AVERAGE(A1,A2,A3)'') p = Some (Num (Fin (4 / 3)), p')"
    using assms
    by (simp add: parser_defs library_defs call_defs scan_defs char_defs)
qed

theorem average_through_evaluate_witness:
  "fst (evaluateAverage (plainHost averageSheet) ''AVERAGE(A1:A3)'' newParser) = Num (Fin 2)
    \<and> (\<exists>p'. evaluate 1 (plainHost averageSheet) (Str ''=AVERAGE(A1:A3)'') newParser
               = Some (Str ''#DIV/0!'', p'))
    \<and> (\<exists>p'. evaluate 1 (plainHost averageSheet) (Str ''=AVERAGE(A1,A2,A3)'') newParser
               = Some (Num (Fin (4 / 3)), p'))"
  using average_through_evaluate [of "plainHost averageSheet" newParser 0]
  by (simp add: stand_in_defs averageSheet_def)


section \<open>Dependencies recorded by an evaluation\<close>

lemma set_foldl_setAdd: "set (foldl (\<lambda>s c. setAdd c s) xs cs) = set xs \<union> set cs"
  by (induction cs arbitrary: xs) (auto simp: setAdd_def)

lemma setDelete_setAdd: "m \<notin> set st \<Longrightarrow> setDelete m (setAdd m st) = st"
  by (induction st) (auto simp: setDelete_def setAdd_def)

lemma noteRefs_Nil [simp]: "noteRefs [] p = p"
  by (simp add: noteRefs_def)

lemma noteRefs_Cons: "noteRefs (m # rs) p = noteRefs rs (noteRefs [m] p)"
  by (simp add: noteRefs_def)

lemma noteRefs_fields [simp]:
  "evaluationCache (noteRefs rs p) = evaluationCache p"
  "processingStack (noteRefs rs p) = processingStack p"
  "cacheHits (noteRefs rs p) = cacheHits p"
  "cacheMisses (noteRefs rs p) = cacheMisses p"
  "set (cellsUsed (noteRefs rs p)) = set (cellsUsed p) \<union> set rs"
  by (simp_all add: noteRefs_def set_foldl_setAdd)

lemma noteRefs_circular:
  "processingStack p = [] \<Longrightarrow> circularReferences (noteRefs rs p) = circularReferences p"
  by (simp add: noteRefs_def)

lemma replaceCallback_plain:
  assumes "plainValues h"
  shows "\<exists>t. replaceCallback ev h m p = Some (t, noteRefs [m] p)"
proof -
  have nf: "\<not> isFormulaValue (getCellValue h m)" using assms by (simp add: plainValues_def)
  show ?thesis
  proof (cases "m \<in> set (processingStack p)")
    case True
    then show ?thesis by (simp add: replaceCallback_def noteRefs_def Let_def)
  next
    case False
    then show ?thesis
      using nf by (simp add: replaceCallback_def noteRefs_def Let_def setDelete_setAdd)
  qed
qed

lemma matchCellRef_nonempty: "matchCellRef s = Some m \<Longrightarrow> m \<noteq> []"
  by (auto simp: matchCellRef_def Let_def split: if_splits)

lemma replaceLoop_plain:
  assumes "plainValues h"
  shows "\<exists>out. replaceLoop ev h e p = Some (out, noteRefs (refsOf e) p)"
proof (induction e arbitrary: p rule: length_induct)
  case (1 e)
  show ?case
  proof (cases e)
    case Nil
    then show ?thesis by simp
  next
    case (Cons c cs)
    show ?thesis
    proof (cases "matchCellRef (c # cs)")
      case None
      have "length cs < length e" using Cons by simp
      with 1 obtain out where "replaceLoop ev h cs p = Some (out, noteRefs (refsOf cs) p)"
        by blast
      then show ?thesis using None Cons by simp
    next
      case (Some m)
      obtain t where cb: "replaceCallback ev h m p = Some (t, noteRefs [m] p)"
        using replaceCallback_plain [OF assms] by blast
      have "length (drop (length m) (c # cs)) < length e"
        using Cons matchCellRef_nonempty [OF Some] by (cases m) simp_all
      with 1 obtain out where
        "replaceLoop ev h (drop (length m) (c # cs)) (noteRefs [m] p)
           = Some (out, noteRefs (refsOf (drop (length m) (c # cs))) (noteRefs [m] p))"
        by blast
      then show ?thesis
        using Some Cons cb noteRefs_Cons [of m "refsOf (drop (length m) (c # cs))" p] by simp
    qed
  qed
qed

lemma replaceCellReferences_plain:
  assumes "plainValues h"
  shows "\<exists>out. replaceCellReferences ev h e p = Some (out, noteRefs (refsOf e) p)"
  using replaceLoop_plain [OF assms, of ev e p]
  by (cases "e = []") (simp_all add: replaceCellReferences_def)


lemma keeps_Some [simp]:
  "keepsCellsUsed p (Some (v, p')) = (set (cellsUsed p) \<subseteq> set (cellsUsed p'))"
  by (simp add: keepsCellsUsed_def)

lemma averageCell_cellsUsed:
  "averageCell h cell (a, k, p) = (a', k', p') \<Longrightarrow> set (cellsUsed p) \<subseteq> set (cellsUsed p')"
  by (auto simp: averageCell_def getNumericCellValue_def Let_def setAdd_def split: if_splits)

lemma averageCells_cellsUsed:
  "foldl (\<lambda>s cell. averageCell h cell s) (a, k, p) cells = (a', k', p')
   \<Longrightarrow> set (cellsUsed p) \<subseteq> set (cellsUsed p')"
proof (induction cells arbitrary: a k p)
  case Nil
  then show ?case by simp
next
  case (Cons c cells)
  obtain a1 k1 p1 where s: "averageCell h c (a, k, p) = (a1, k1, p1)"
    by (metis prod_cases3)
  then have "set (cellsUsed p) \<subseteq> set (cellsUsed p1)" by (rule averageCell_cellsUsed)
  moreover have "set (cellsUsed p1) \<subseteq> set (cellsUsed p')"
    using Cons.IH [of a1 k1 p1] Cons.prems s by simp
  ultimately show ?case by blast
qed

lemma averageArg_cellsUsed:
  "averageArg h arg (a, k, p) = (a', k', p') \<Longrightarrow> set (cellsUsed p) \<subseteq> set (cellsUsed p')"
  by (auto simp: averageArg_def Let_def split: if_splits
      dest: averageCells_cellsUsed averageCell_cellsUsed)

lemma averageArgs_cellsUsed:
  "foldl (\<lambda>s arg. averageArg h arg s) (a, k, p) args = (a', k', p')
   \<Longrightarrow> set (cellsUsed p) \<subseteq> set (cellsUsed p')"
proof (induction args arbitrary: a k p)
  case Nil
  then show ?case by simp
next
  case (Cons c args)
  obtain a1 k1 p1 where s: "averageArg h c (a, k, p) = (a1, k1, p1)"
    by (metis prod_cases3)
  then have "set (cellsUsed p) \<subseteq> set (cellsUsed p1)" by (rule averageArg_cellsUsed)
  moreover have "set (cellsUsed p1) \<subseteq> set (cellsUsed p')"
    using Cons.IH [of a1 k1 p1] Cons.prems s by simp
  ultimately show ?case by blast
qed

lemma evaluateAverage_keeps: "keepsCellsUsed p (Some (evaluateAverage h e p))"
proof -
  obtain v p' where r: "evaluateAverage h e p = (v, p')" by (cases "evaluateAverage h e p")
  have "set (cellsUsed p) \<subseteq> set (cellsUsed p')"
    using r
    by (auto simp: evaluateAverage_def split: option.splits if_splits prod.splits
        dest: averageArgs_cellsUsed)
  with r show ?thesis by simp
qed

lemma argValue_cellsUsed: "argValue h arg p = (v, p') \<Longrightarrow> set (cellsUsed p) \<subseteq> set (cellsUsed p')"
  by (auto simp: argValue_def setAdd_def split: if_splits)

lemma andLoop_cellsUsed: "andLoop h args p = (v, p') \<Longrightarrow> set (cellsUsed p) \<subseteq> set (cellsUsed p')"
proof (induction args arbitrary: p)
  case Nil
  then show ?case by simp
next
  case (Cons a args)
  obtain v1 p1 where s: "argValue h a p = (v1, p1)" by (cases "argValue h a p")
  then have "set (cellsUsed p) \<subseteq> set (cellsUsed p1)" by (rule argValue_cellsUsed)
  moreover have "set (cellsUsed p1) \<subseteq> set (cellsUsed p')"
    using Cons.IH [of p1] Cons.prems s by (auto split: if_splits)
  ultimately show ?case by blast
qed

lemma orLoop_cellsUsed: "orLoop h args p = (v, p') \<Longrightarrow> set (cellsUsed p) \<subseteq> set (cellsUsed p')"
proof (induction args arbitrary: p)
  case Nil
  then show ?case by simp
next
  case (Cons a args)
  obtain v1 p1 where s: "argValue h a p = (v1, p1)" by (cases "argValue h a p")
  then have "set (cellsUsed p) \<subseteq> set (cellsUsed p1)" by (rule argValue_cellsUsed)
  moreover have "set (cellsUsed p1) \<subseteq> set (cellsUsed p')"
    using Cons.IH [of p1] Cons.prems s by (auto split: if_splits)
  ultimately show ?case by blast
qed

lemma evaluateAnd_keeps: "keepsCellsUsed p (Some (evaluateAnd h e p))"
proof -
  obtain v p' where r: "evaluateAnd h e p = (v, p')" by (cases "evaluateAnd h e p")
  have "set (cellsUsed p) \<subseteq> set (cellsUsed p')"
    using r by (auto simp: evaluateAnd_def split: option.splits if_splits dest: andLoop_cellsUsed)
  with r show ?thesis by simp
qed

lemma evaluateOr_keeps: "keepsCellsUsed p (Some (evaluateOr h e p))"
proof -
  obtain v p' where r: "evaluateOr h e p = (v, p')" by (cases "evaluateOr h e p")
  have "set (cellsUsed p) \<subseteq> set (cellsUsed p')"
    using r by (auto simp: evaluateOr_def split: option.splits if_splits dest: orLoop_cellsUsed)
  with r show ?thesis by simp
qed

lemma callOther_keeps: "keepsCellsUsed p (Some (callOther h name e p))"
  by (auto simp: callOther_def addCellsUsed_def set_foldl_setAdd split: prod.splits)

lemma evaluateIf_keeps:
  assumes "plainValues h"
  shows "keepsCellsUsed p (evaluateIf (replaceCellReferences ev h) h e p)"
proof (cases "matchIf e")
  case None
  then show ?thesis by (simp add: evaluateIf_def)
next
  case (Some g)
  obtain g1 g2 g3 where g: "g = (g1, g2, g3)" by (cases g)
  obtain out where
    "replaceCellReferences ev h (trim g1) p = Some (out, noteRefs (refsOf (trim g1)) p)"
    using replaceCellReferences_plain [OF assms] by blast
  then show ?thesis
    using Some g by (auto simp: evaluateIf_def Let_def split: option.splits)
qed

lemma evaluateExpression_keeps:
  assumes "plainValues h"
  shows "keepsCellsUsed p (evaluateExpression (replaceCellReferences ev h) h e p)"
  by (simp add: evaluateExpression_def Let_def evaluateIf_keeps [OF assms] evaluateAverage_keeps
      evaluateAnd_keeps evaluateOr_keeps callOther_keeps)


lemma storeResult_cellsUsed [simp]: "cellsUsed (storeResult k v p) = cellsUsed p"
  by (simp add: storeResult_def Let_def)

lemma evaluate_miss_plain:
  assumes plain: "plainValues h"
    and miss: "map_of (evaluationCache p) (CHR ''='' # e) = None"
    and idle: "processingStack p = []" "circularReferences p = []"
    and ne: "trim e \<noteq> []"
  shows "\<exists>out p2 v p3.
           replaceLoop (evaluate n h) h (trim e)
               (p\<lparr>cacheMisses := cacheMisses p + 1, cellsUsed := []\<rparr>) = Some (out, p2)
           \<and> set (cellsUsed p2) = set (refsOf (trim e))
           \<and> evaluateExpression (replaceCellReferences (evaluate n h) h) h out p2 = Some (v, p3)
           \<and> set (cellsUsed p2) \<subseteq> set (cellsUsed p3)
           \<and> evaluate (Suc n) h (Str (CHR ''='' # e)) p
               = Some (v, storeResult (CHR ''='' # e) v p3)"
proof -
  let ?p1 = "p\<lparr>cacheMisses := cacheMisses p + 1, cellsUsed := []\<rparr>"
  let ?p2 = "noteRefs (refsOf (trim e)) ?p1"
  obtain out where rl: "replaceLoop (evaluate n h) h (trim e) ?p1 = Some (out, ?p2)"
    using replaceLoop_plain [OF plain] by blast
  then have rp: "replaceCellReferences (evaluate n h) h (trim e) ?p1 = Some (out, ?p2)"
    using ne by (simp add: replaceCellReferences_def)
  have circ: "circularReferences ?p2 = []"
    using idle by (simp add: noteRefs_circular)
  have used: "set (cellsUsed ?p2) = set (refsOf (trim e))" by simp
  have "keepsCellsUsed ?p2 (evaluateExpression (replaceCellReferences (evaluate n h) h) h out ?p2)"
    by (rule evaluateExpression_keeps [OF plain])
  then obtain v p3 where
    ee: "evaluateExpression (replaceCellReferences (evaluate n h) h) h out ?p2 = Some (v, p3)"
    and sub: "set (cellsUsed ?p2) \<subseteq> set (cellsUsed p3)"
    by (auto simp: keepsCellsUsed_def split: option.splits)
  have "evaluate (Suc n) h (Str (CHR ''='' # e)) p = Some (v, storeResult (CHR ''='' # e) v p3)"
    using miss ne rp circ ee by (simp add: evaluateMiss_def startsWith_def Let_def)
  with rl used ee sub show ?thesis by blast
qed

lemma evaluate_records_refs:
  assumes plain: "plainValues h"
    and miss: "map_of (evaluationCache p) (CHR ''='' # e) = None"
    and idle: "processingStack p = []" "circularReferences p = []"
    and ne: "trim e \<noteq> []"
  shows "\<exists>v p'. evaluate (Suc n) h (Str (CHR ''='' # e)) p = Some (v, p')
           \<and> set (refsOf (trim e)) \<subseteq> set (getCellsUsed p')"
proof -
  obtain out p2 v p3 where
    rl: "replaceLoop (evaluate n h) h (trim e)
           (p\<lparr>cacheMisses := cacheMisses p + 1, cellsUsed := []\<rparr>) = Some (out, p2)"
    and used: "set (cellsUsed p2) = set (refsOf (trim e))"
    and ee: "evaluateExpression (replaceCellReferences (evaluate n h) h) h out p2 = Some (v, p3)"
    and sub: "set (cellsUsed p2) \<subseteq> set (cellsUsed p3)"
    and ev: "evaluate (Suc n) h (Str (CHR ''='' # e)) p = Some (v, storeResult (CHR ''='' # e) v p3)"
    using evaluate_miss_plain [OF plain miss idle ne] by blast
  have "set (refsOf (trim e)) \<subseteq> set (getCellsUsed (storeResult (CHR ''='' # e) v p3))"
    using used sub by (simp add: getCellsUsed_def)
  with ev show ?thesis by blast
qed

lemma dropWhile_upper_head:
  assumes "\<forall>c\<in>set pre. \<not> isDigit c" and "\<not> isDigit d" and "\<not> isUpper d"
  shows "\<exists>x xs. dropWhile isUpper (pre @ d # rest) = x # xs \<and> \<not> isDigit x"
  using assms by (induction pre) auto

lemma matchCellRef_no_digit:
  assumes "\<forall>c\<in>set pre. \<not> isDigit c" and "\<not> isDigit d" and "\<not> isUpper d"
  shows "matchCellRef (pre @ d # rest) = None"
proof -
  obtain x xs where "dropWhile isUpper (pre @ d # rest) = x # xs" "\<not> isDigit x"
    using dropWhile_upper_head [OF assms] by blast
  then show ?thesis by (simp add: matchCellRef_def Let_def)
qed

lemma replaceLoop_copies_prefix:
  assumes "\<forall>c\<in>set pre. \<not> isDigit c" and "\<not> isDigit d" and "\<not> isUpper d"
  shows "replaceLoop ev h (pre @ d # rest) p
     = map_option (\<lambda>(out, p'). (pre @ d # out, p')) (replaceLoop ev h rest p)"
  using assms
proof (induction pre)
  case Nil
  have "matchCellRef (d # rest) = None"
    using matchCellRef_no_digit [of "[]" d rest] Nil by simp
  then show ?case by (auto split: option.splits)
next
  case (Cons c pre)
  have "matchCellRef (c # pre @ d # rest) = None"
    using matchCellRef_no_digit [of "c # pre" d rest] Cons.prems by simp
  then show ?case using Cons by (auto split: option.splits)
qed

lemma toUpperChar_cases: "toUpperChar c = c \<or> isLower c"
  by (simp add: toUpperChar_def)

lemma lower_not_digit: "isLower c \<Longrightarrow> \<not> isDigit c \<and> \<not> isUpper c"
  by (simp add: isLower_def isDigit_def isUpper_def)

lemma call_prefix_shape:
  assumes "map toUpperChar (pre @ [d]) = name @ ''(''" and "\<forall>c\<in>set name. isUpper c"
  shows "(\<forall>c\<in>set pre. \<not> isDigit c) \<and> \<not> isDigit d \<and> \<not> isUpper d"
proof -
  have pn: "map toUpperChar pre = name" and dn: "toUpperChar d = CHR ''(''"
    using assms(1) by (auto simp: append_eq_append_conv2 Cons_eq_append_conv append_eq_Cons_conv)
  have "\<not> isDigit c" if "c \<in> set pre" for c
  proof -
    have "toUpperChar c \<in> set name" using pn that by (metis image_eqI set_map)
    then have up: "isUpper (toUpperChar c)" using assms(2) by blast
    show ?thesis
      using toUpperChar_cases [of c] up lower_not_digit [of c]
      by (auto simp: isUpper_def isDigit_def)
  qed
  moreover have "\<not> isDigit d \<and> \<not> isUpper d"
    using toUpperChar_cases [of d] dn lower_not_digit [of d]
    by (auto simp: isUpper_def isDigit_def)
  ultimately show ?thesis by blast
qed


lemma substitution_keeps_call_prefix:
  assumes sw: "startsWith (map toUpperChar e) (name @ ''('')" and up: "\<forall>c\<in>set name. isUpper c"
    and rl: "replaceLoop ev h e p = Some (out, p')"
  shows "startsWith (map toUpperChar out) (name @ ''('')"
proof -
  define x where "x = take (length name + 1) e"
  define rest where "rest = drop (length name + 1) e"
  define pre where "pre = butlast x"
  define d where "d = last x"
  have m: "map toUpperChar x = name @ ''(''"
    using sw by (simp add: startsWith_def take_map x_def)
  have "length (map toUpperChar x) = length name + 1" by (simp only: m) simp
  then have ne: "x \<noteq> []" by auto
  have x: "x = pre @ [d]" using ne by (simp add: pre_def d_def)
  have e: "e = pre @ d # rest"
  proof -
    have "e = x @ rest" by (simp add: x_def rest_def)
    then show ?thesis by (simp add: x)
  qed
  have m': "map toUpperChar (pre @ [d]) = name @ ''(''" using m by (simp only: x)
  have shape: "(\<forall>c\<in>set pre. \<not> isDigit c) \<and> \<not> isDigit d \<and> \<not> isUpper d"
    by (rule call_prefix_shape [OF m' up])
  have "replaceLoop ev h (pre @ d # rest) p
     = map_option (\<lambda>(out, p'). (pre @ d # out, p')) (replaceLoop ev h rest p)"
    using shape by (intro replaceLoop_copies_prefix) simp_all
  then have "map_option (\<lambda>(out, p'). (pre @ d # out, p')) (replaceLoop ev h rest p) = Some (out, p')"
    using rl by (simp only: e)
  then obtain out' where "out = pre @ d # out'" by (auto split: prod.splits)
  then have "out = (pre @ [d]) @ out'" by simp
  then have "map toUpperChar out = map toUpperChar (pre @ [d]) @ map toUpperChar out'"
    by (simp only: map_append)
  then have "map toUpperChar out = (name @ ''('') @ map toUpperChar out'"
    by (simp only: m')
  then show ?thesis by (simp add: startsWith_def)
qed

lemma starts_with_split: "startsWith u q \<Longrightarrow> \<exists>u'. u = q @ u'"
  by (metis append_take_drop_id startsWith_def)



lemma dispatch_if:
  assumes "startsWith (map toUpperChar out) ''IF(''"
  shows "evaluateExpression rr h out p = evaluateIf rr h out p"
proof -
  obtain u' where u: "map toUpperChar out = ''IF('' @ u'"
    using starts_with_split [OF assms] by blast
  then have ne: "out \<noteq> []" by auto
  show ?thesis using ne by (simp add: evaluateExpression_def startsWith_def u)
qed







text \<open>
  Claim C10, as the code has it. A formula whose expression starts with \<open>IF(\<close>, evaluated
  by \<open>evaluate\<close> with no cached entry, nothing in progress, and no cell holding formula
  text, returns: the references are substituted first, \<open>evaluateIf\<close> then runs on the
  substituted text and gives the value, and every cell reference of the expression,
  those of both branches included, is in the dependency set afterwards.
\<close>

theorem conditional_records_branch_references:
  assumes "plainValues h"
    and "map_of (evaluationCache p) (CHR ''='' # e) = None"
    and "processingStack p = []" and "circularReferences p = []"
    and "startsWith (map toUpperChar (trim e)) ''IF(''"
  shows "\<exists>out p2 v p3.
           replaceCellReferences (evaluate n h) h (trim e)
               (p\<lparr>cacheMisses := cacheMisses p + 1, cellsUsed := []\<rparr>) = Some (out, p2)
           \<and> evaluateIf (replaceCellReferences (evaluate n h) h) h out p2 = Some (v, p3)
           \<and> evaluate (Suc n) h (Str (CHR ''='' # e)) p
               = Some (v, storeResult (CHR ''='' # e) v p3)
           \<and> set (refsOf (trim e)) \<subseteq> set (getCellsUsed (storeResult (CHR ''='' # e) v p3))"
proof -
  have ne: "trim e \<noteq> []" using assms(5) by (auto simp: startsWith_def)
  obtain out p2 v p3 where
    rl: "replaceLoop (evaluate n h) h (trim e)
           (p\<lparr>cacheMisses := cacheMisses p + 1, cellsUsed := []\<rparr>) = Some (out, p2)"
    and used: "set (cellsUsed p2) = set (refsOf (trim e))"
    and ee: "evaluateExpression (replaceCellReferences (evaluate n h) h) h out p2 = Some (v, p3)"
    and sub: "set (cellsUsed p2) \<subseteq> set (cellsUsed p3)"
    and ev: "evaluate (Suc n) h (Str (CHR ''='' # e)) p = Some (v, storeResult (CHR ''='' # e) v p3)"
    using evaluate_miss_plain [OF assms(1-4) ne] by blast
  have rp: "replaceCellReferences (evaluate n h) h (trim e)
           (p\<lparr>cacheMisses := cacheMisses p + 1, cellsUsed := []\<rparr>) = Some (out, p2)"
    using rl ne by (simp add: replaceCellReferences_def)
  have "startsWith (map toUpperChar out) ''IF(''"
    using substitution_keeps_call_prefix [of "trim e" "''IF''", OF _ _ rl] assms(5)
    by (simp add: isUpper_def)
  then have ei: "evaluateIf (replaceCellReferences (evaluate n h) h) h out p2 = Some (v, p3)"
    using ee by (simp add: dispatch_if)
  have "set (refsOf (trim e)) \<subseteq> set (getCellsUsed (storeResult (CHR ''='' # e) v p3))"
    using used sub by (simp add: getCellsUsed_def)
  with rp ei ev show ?thesis by blast
qed

theorem conditional_records_branch_references_witness:
  "\<exists>out p2 v p3.
      replaceCellReferences (evaluate 0 (plainHost branchSheet)) (plainHost branchSheet)
          ''IF(A1>5,B1,C1)'' (newParser\<lparr>cacheMisses := 1\<rparr>) = Some (out, p2)
      \<and> evaluateIf (replaceCellReferences (evaluate 0 (plainHost branchSheet)) (plainHost branchSheet))
            (plainHost branchSheet) out p2 = Some (v, p3)
      \<and> evaluate 1 (plainHost branchSheet) (Str ''=IF(A1>5,B1,C1)'') newParser
          = Some (v, storeResult ''=IF(A1>5,B1,C1)'' v p3)
      \<and> {''A1'', ''B1'', ''C1''} \<subseteq> set (getCellsUsed (storeResult ''=IF(A1>5,B1,C1)'' v p3))"
proof -
  have plain: "plainValues (plainHost branchSheet)"
    by (simp add: plainValues_def stand_in_defs branchSheet_def isFormulaValue_def startsWith_def)
  have t: "trim ''IF(A1>5,B1,C1)'' = ''IF(A1>5,B1,C1)''"
    by (simp add: trim_def char_defs)
  have r: "refsOf ''IF(A1>5,B1,C1)'' = [''A1'', ''B1'', ''C1'']"
    by (simp add: matchCellRef_def char_defs Let_def)
  have p1: "newParser\<lparr>cacheMisses := cacheMisses newParser + 1, cellsUsed := []\<rparr>
            = newParser\<lparr>cacheMisses := 1\<rparr>"
    by (simp add: newParser_def)
  have "\<exists>out p2 v p3.
      replaceCellReferences (evaluate 0 (plainHost branchSheet)) (plainHost branchSheet)
          (trim ''IF(A1>5,B1,C1)'')
          (newParser\<lparr>cacheMisses := cacheMisses newParser + 1, cellsUsed := []\<rparr>) = Some (out, p2)
      \<and> evaluateIf (replaceCellReferences (evaluate 0 (plainHost branchSheet)) (plainHost branchSheet))
            (plainHost branchSheet) out p2 = Some (v, p3)
      \<and> evaluate (Suc 0) (plainHost branchSheet) (Str (CHR ''='' # ''IF(A1>5,B1,C1)'')) newParser
          = Some (v, storeResult (CHR ''='' # ''IF(A1>5,B1,C1)'') v p3)
      \<and> set (refsOf (trim ''IF(A1>5,B1,C1)''))
          \<subseteq> set (getCellsUsed (storeResult (CHR ''='' # ''IF(A1>5,B1,C1)'') v p3))"
    by (rule conditional_records_branch_references [OF plain])
      (simp_all add: t newParser_def startsWith_def toUpperChar_def char_defs)
  then show ?thesis
    unfolding t r p1 by (simp del: evaluate.simps)
qed


text \<open>
  Claim C10 as stated fails: with A1 = 10, B1 = 7 and C1 = 8, \<open>=IF(A1>5,B1,C1)\<close> takes
  the branch B1, which does not occur in the condition, and B1 (and C1) are in the
  dependency set; the value is the number 7 that mathjs computes from the substituted
  text.
\<close>

theorem conditional_counterexample:
  "map_option (map_prod id getCellsUsed)
     (evaluate 1 (plainHost branchSheet) (Str ''=IF(A1>5,B1,C1)'') newParser)
     = Some (Num (Fin 7), [''A1'', ''B1'', ''C1''])
   \<and> ''B1'' \<notin> set (refsOf ''A1>5'')"
proof
  show "map_option (map_prod id getCellsUsed)
     (evaluate 1 (plainHost branchSheet) (Str ''=IF(A1>5,B1,C1)'') newParser)
     = Some (Num (Fin 7), [''A1'', ''B1'', ''C1''])"
    by (simp add: stand_in_defs branchSheet_def library_defs call_defs parser_defs scan_defs
        char_defs getCellsUsed_def)
  show "''B1'' \<notin> set (refsOf ''A1>5'')"
    by (simp add: matchCellRef_def char_defs Let_def)
qed


section \<open>The evaluation cache\<close>

lemma dependsOnAny_iff: "dependsOnAny ids e = (set ids \<inter> set (entryDependencies e) \<noteq> {})"
  by (induction ids) auto

lemma invalidateLoop_filter:
  assumes "distinct (map fst cache)" and "distinct (map fst rest)" and "set rest \<subseteq> set cache"
  shows "invalidateLoop ids rest cache
     = filter (\<lambda>ke. \<not> (ke \<in> set rest \<and> dependsOnAny ids (snd ke))) cache"
  using assms
proof (induction rest arbitrary: cache)
  case Nil
  then show ?case by simp
next
  case (Cons ke rest)
  obtain k e where ke: "ke = (k, e)" by (cases ke)
  let ?c1 = "if dependsOnAny ids e then mapDelete k cache else cache"
  have del: "mapDelete k cache = filter (\<lambda>x. x \<noteq> (k, e)) cache"
    using Cons.prems ke
    by (auto simp: mapDelete_def intro!: filter_cong dest: eq_key_imp_eq_value)
  have notin: "(k, e) \<notin> set rest"
    using Cons.prems(2) ke by (auto simp: image_iff)
  have d1: "distinct (map fst ?c1)" using Cons.prems(1) by (simp add: del distinct_map_filter)
  have d2: "distinct (map fst rest)" using Cons.prems(2) by simp
  have s: "set rest \<subseteq> set ?c1" using Cons.prems(3) notin by (auto simp: del)
  have "invalidateLoop ids (ke # rest) cache = invalidateLoop ids rest ?c1"
    by (simp add: ke)
  also have "\<dots> = filter (\<lambda>x. \<not> (x \<in> set rest \<and> dependsOnAny ids (snd x))) ?c1"
    by (rule Cons.IH [OF d1 d2 s])
  also have "\<dots> = filter (\<lambda>x. \<not> (x \<in> set (ke # rest) \<and> dependsOnAny ids (snd x))) cache"
    by (auto simp: del ke intro!: filter_cong)
  finally show ?case .
qed

lemma invalidate_filter:
  assumes "distinct (map fst (evaluationCache p))"
  shows "evaluationCache (invalidateCellDependencies (Some ids) p)
     = filter (\<lambda>(k, e). set ids \<inter> set (entryDependencies e) = {}) (evaluationCache p)"
proof -
  have "invalidateLoop ids (evaluationCache p) (evaluationCache p)
      = filter (\<lambda>ke. \<not> (ke \<in> set (evaluationCache p) \<and> dependsOnAny ids (snd ke))) (evaluationCache p)"
    by (rule invalidateLoop_filter [OF assms assms]) simp
  also have "\<dots> = filter (\<lambda>(k, e). set ids \<inter> set (entryDependencies e) = {}) (evaluationCache p)"
    by (auto simp: dependsOnAny_iff intro!: filter_cong)
  finally show ?thesis by (simp add: invalidateCellDependencies_def)
qed

lemma map_of_filter_none:
  "map_of m k = Some e \<Longrightarrow> distinct (map fst m) \<Longrightarrow> \<not> P (k, e) \<Longrightarrow> map_of (filter P m) k = None"
proof -
  assume a: "map_of m k = Some e" "distinct (map fst m)" "\<not> P (k, e)"
  have "\<And>e'. (k, e') \<in> set (filter P m) \<Longrightarrow> False"
  proof -
    fix e' assume "(k, e') \<in> set (filter P m)"
    then have in': "(k, e') \<in> set m" and P: "P (k, e')" by simp_all
    have "(k, e) \<in> set m" using a(1) by (rule map_of_SomeD)
    then have "e' = e" using in' a(2) by (meson eq_key_imp_eq_value)
    with P a(3) show False by simp
  qed
  then show ?thesis by (meson map_of_SomeD not_None_eq)
qed

text \<open>
  Claim C2. Let a call of \<open>evaluate\<close> on a formula \<open>f\<close> have returned and left an entry
  for \<open>f\<close> in the cache. Then the next call on \<open>f\<close> returns the stored value and exposes
  the stored dependencies as \<open>cellsUsed\<close>, whatever the host is, so without reading a cell
  or calling a function body; only \<open>cacheHits\<close> and \<open>cellsUsed\<close> change.
  \<open>invalidateCellDependencies\<close> on an array of cell ids keeps exactly the entries whose
  dependencies are disjoint from it; when the dependencies of \<open>f\<close> meet it, \<open>f\<close> has no
  entry afterwards and the next call takes the path of a cache miss.
\<close>

theorem cache_hit_and_invalidation:
  assumes first: "evaluate m h (Str f) p0 = Some (v, p1)"
    and stored: "map_of (evaluationCache p1) f = Some entry"
    and formula: "startsWith f ''=''"
    and keys: "distinct (map fst (evaluationCache p1))"
  shows "evaluate (Suc n) h' (Str f) p1
           = Some (entryValue entry,
                   p1\<lparr>cacheHits := cacheHits p1 + 1, cellsUsed := entryDependencies entry\<rparr>)
    \<and> getCellsUsed (p1\<lparr>cacheHits := cacheHits p1 + 1, cellsUsed := entryDependencies entry\<rparr>)
        = entryDependencies entry
    \<and> evaluationCache (invalidateCellDependencies (Some ids) p1)
        = filter (\<lambda>(k, e). set ids \<inter> set (entryDependencies e) = {}) (evaluationCache p1)
    \<and> (set ids \<inter> set (entryDependencies entry) \<noteq> {} \<longrightarrow>
         map_of (evaluationCache (invalidateCellDependencies (Some ids) p1)) f = None
         \<and> evaluate (Suc n) h' (Str f) (invalidateCellDependencies (Some ids) p1)
             = evaluateMiss (evaluate n h') h' f (invalidateCellDependencies (Some ids) p1))"
proof (intro conjI impI)
  have ne: "f \<noteq> []" using formula by (auto simp: startsWith_def)
  show "evaluate (Suc n) h' (Str f) p1
           = Some (entryValue entry,
                   p1\<lparr>cacheHits := cacheHits p1 + 1, cellsUsed := entryDependencies entry\<rparr>)"
    using stored formula ne by simp
  show "getCellsUsed (p1\<lparr>cacheHits := cacheHits p1 + 1, cellsUsed := entryDependencies entry\<rparr>)
        = entryDependencies entry"
    by (simp add: getCellsUsed_def)
  show inv: "evaluationCache (invalidateCellDependencies (Some ids) p1)
        = filter (\<lambda>(k, e). set ids \<inter> set (entryDependencies e) = {}) (evaluationCache p1)"
    by (rule invalidate_filter [OF keys])
  assume hit: "set ids \<inter> set (entryDependencies entry) \<noteq> {}"
  show none: "map_of (evaluationCache (invalidateCellDependencies (Some ids) p1)) f = None"
    unfolding inv using stored keys hit by (intro map_of_filter_none [where e = entry]) simp_all
  show "evaluate (Suc n) h' (Str f) (invalidateCellDependencies (Some ids) p1)
             = evaluateMiss (evaluate n h') h' f (invalidateCellDependencies (Some ids) p1)"
    using none formula ne by simp
qed

theorem cache_hit_and_invalidation_witness:
  "evaluate 1 (plainHost blankSheet) (Str ''=A1/2'') halfParser
     = Some (Num (Fin 5), halfParser\<lparr>cacheHits := 1, cellsUsed := [''A1'']\<rparr>)
   \<and> map fst (evaluationCache (invalidateCellDependencies (Some [''A1'']) halfParser)) = [''=C1'']
   \<and> evaluate 1 (plainHost blankSheet) (Str ''=A1/2'') (invalidateCellDependencies (Some [''A1'']) halfParser)
       = evaluateMiss (evaluate 0 (plainHost blankSheet)) (plainHost blankSheet) ''=A1/2''
           (invalidateCellDependencies (Some [''A1'']) halfParser)"
proof -
  have n10: "numberToString 10 = ''10''" by code_simp
  have first: "evaluate (Suc 0) (plainHost branchSheet) (Str ''=A1/2'')
      (halfParser\<lparr>evaluationCache := [hd (evaluationCache halfParser)], cellsUsed := [],
          cacheMisses := 1\<rparr>) = Some (Num (Fin 5), halfParser)"
    by (simp add: halfParser_def stand_in_defs branchSheet_def parser_defs scan_defs char_defs n10)
  have stored: "map_of (evaluationCache halfParser) ''=A1/2''
      = Some \<lparr>entryValue = Num (Fin 5), entryDependencies = [''A1'']\<rparr>"
    by (simp add: halfParser_def)
  have formula: "startsWith ''=A1/2'' ''=''" by (simp add: startsWith_def)
  have keys: "distinct (map fst (evaluationCache halfParser))" by (simp add: halfParser_def)
  note w = cache_hit_and_invalidation [OF first stored formula keys, of 0 "plainHost blankSheet" "[''A1'']"]
  have c: "filter (\<lambda>(k, e). set [''A1''] \<inter> set (entryDependencies e) = {}) (evaluationCache halfParser)
      = [(''=C1'', \<lparr>entryValue = Num (Fin 8), entryDependencies = [''C1'']\<rparr>)]"
    by (simp add: halfParser_def)
  have hits: "cacheHits halfParser = 0" by (simp add: halfParser_def)
  show ?thesis
    using w unfolding c by (simp add: hits del: evaluate.simps)
qed


section \<open>The dependency edges\<close>

lemma setAdd_idem: "setAdd b (setAdd b xs) = setAdd b xs"
  by (simp add: setAdd_def)

lemma foldl_addDependency:
  "foldl (addDependency b) d used a
     = (if a \<in> set used
        then Some (setAdd b (case d a of None \<Rightarrow> [] | Some s \<Rightarrow> s))
        else d a)"
proof (induction used arbitrary: d)
  case Nil
  then show ?case by simp
next
  case (Cons u used)
  have "foldl (addDependency b) d (u # used) a
      = (if a \<in> set used
         then Some (setAdd b (case addDependency b d u a of None \<Rightarrow> [] | Some s \<Rightarrow> s))
         else addDependency b d u a)"
    by (simp add: Cons.IH)
  also have "\<dots> = (if a \<in> set (u # used)
        then Some (setAdd b (case d a of None \<Rightarrow> [] | Some s \<Rightarrow> s))
        else d a)"
    by (simp add: addDependency_def setAdd_idem)
  finally show ?case .
qed

lemma set_setAdd: "set (setAdd b xs) = insert b (set xs)"
  by (auto simp: setAdd_def)

text \<open>
  Claim C3, as the code has it. When \<open>updateCellValue\<close> stores a formula in cell \<open>b\<close> and
  the evaluation returns, the edge set afterwards is the edge set before together with
  an edge from every cell in \<open>getCellsUsed\<close> to \<open>b\<close>: edges are added, and no edge is
  removed.
\<close>

theorem dependency_edges_only_grow:
  assumes "startsWith v ''=''" and "formulaParser hk = Some pr"
    and "evaluate fuel h (Str v) pr = Some (r, pr')"
  shows "\<exists>hk'. updateCellValue fuel h formulaOf b v hk = Some (hk', [ApplyFormula b v r])
           \<and> formulaParser hk' = Some pr'
           \<and> edgeSet hk' = edgeSet hk \<union> {(a, b) | a. a \<in> set (getCellsUsed pr')}"
proof -
  let ?hk' = "hk\<lparr>formulaParser := Some pr',
                 dependencies := foldl (addDependency b) (dependencies hk) (getCellsUsed pr')\<rparr>"
  have u: "updateCellValue fuel h formulaOf b v hk = Some (?hk', [ApplyFormula b v r])"
    using assms by (simp add: updateCellValue_def)
  have "edgeSet ?hk' = edgeSet hk \<union> {(a, b) | a. a \<in> set (getCellsUsed pr')}"
    by (auto simp: edgeSet_def foldl_addDependency set_setAdd split: if_splits option.splits)
  with u show ?thesis by auto
qed


theorem dependency_edges_only_grow_witness:
  "\<exists>hk'. updateCellValue 1 (plainHost blankSheet) (\<lambda>c. []) ''B1'' ''=A1'' newHook
            = Some (hk', [ApplyFormula ''B1'' ''=A1'' (Num (Fin 0))])
        \<and> edgeSet hk' = {(''A1'', ''B1'')}"
proof -
  let ?pr = "\<lparr>evaluationCache =
               [(''=A1'', \<lparr>entryValue = Num (Fin 0), entryDependencies = [''A1'']\<rparr>)],
             cellsUsed = [''A1''], cacheHits = 0, cacheMisses = 1,
             circularReferences = [], processingStack = []\<rparr>"
  have e: "evaluate (Suc 0) (plainHost blankSheet) (Str ''=A1'') newParser = Some (Num (Fin 0), ?pr)"
    by (simp add: stand_in_defs blankSheet_def parser_defs scan_defs char_defs)
  have s: "startsWith ''=A1'' ''=''" by (simp add: startsWith_def)
  have f: "formulaParser newHook = Some newParser" by (simp add: newHook_def)
  have n: "edgeSet newHook = {}" by (simp add: edgeSet_def newHook_def)
  show ?thesis
    using dependency_edges_only_grow [OF s f e, of "\<lambda>c. []" "''B1''"]
    unfolding n by (fastforce simp add: getCellsUsed_def simp del: evaluate.simps)
qed

text \<open>
  Claim C3 as stated fails: B1 is given the formula \<open>=A1\<close> and then the formula \<open>=C1\<close>.
  The last evaluation read C1 only, and the edge from A1 to B1 is still there.
\<close>

theorem stale_edge_counterexample:
  "map_option (\<lambda>(hk, acts). (dependencies hk ''A1'', map_option getCellsUsed (formulaParser hk)))
     (Option.bind (updateCellValue 1 (plainHost blankSheet) (\<lambda>c. []) ''B1'' ''=A1'' newHook)
        (\<lambda>(hk1, acts). updateCellValue 1 (plainHost blankSheet) (\<lambda>c. []) ''B1'' ''=C1'' hk1))
   = Some (Some [''B1''], Some [''C1''])"
  by (simp add: updateCellValue_def newHook_def addDependency_def getCellsUsed_def
      stand_in_defs blankSheet_def parser_defs scan_defs char_defs)


section \<open>The recalculation of dependent cells\<close>










text \<open>The state of the example arises from two calls of \<open>updateCellValue\<close> on a new hook.\<close>

lemma cyclic_hook_reachable:
  "map_option (\<lambda>(hk, acts). map (dependencies hk) [''A1'', ''B1'', ''C1''])
     (Option.bind (updateCellValue 1 (plainHost cyclicSheet) (\<lambda>c. []) ''B1'' ''=C1/A1'' newHook)
        (\<lambda>(hk1, acts). updateCellValue 1 (plainHost cyclicSheet) (\<lambda>c. []) ''A1'' ''=B1'' hk1))
   = Some (map (dependencies cyclicHook) [''A1'', ''B1'', ''C1''])"
  by (simp add: updateCellValue_def newHook_def cyclicHook_def addDependency_def getCellsUsed_def
      stand_in_defs cyclicSheet_def parser_defs scan_defs char_defs)

end
